theory Spec2Isabelle
  imports Main
begin

section \<open>Tokens (parse/tokens.py)\<close>

datatype TokenKind =
    BOOL_LIT | FLOAT_LIT | STR_LIT | INT_LIT | NULL_LIT
  | COMMA | COLON | EQ | LEFT_BRACE | LEFT_PAREN | LEFT_SQUARE_BRACKET
  | RIGHT_BRACE | RIGHT_PAREN | RIGHT_SQUARE_BRACKET | SEMICOLON
  | LINE_COMMENT_START | MULTILINE_COMMENT_START | MULTILINE_COMMENT_END
  | ATTR_ACCESS | IDENTIFIER
  | BREAK | CATCH | CONTINUE | ELSE | FN | FOR | IF | IN | LET | RETURN | TRY | WHILE
  | EOF

text \<open>A token is \<open>Token kind val line col\<close>.\<close>

datatype Token = Token TokenKind string int int

definition KEYWORDS :: "string \<Rightarrow> TokenKind option" where
  "KEYWORDS = map_of
     [(''break'', BREAK), (''catch'', CATCH), (''continue'', CONTINUE), (''else'', ELSE),
      (''fn'', FN), (''for'', FOR), (''if'', IF), (''in'', IN), (''let'', LET),
      (''return'', RETURN), (''try'', TRY), (''while'', WHILE)]"

definition SYNTAX :: "char \<Rightarrow> TokenKind option" where
  "SYNTAX = map_of
     [(CHR '','', COMMA), (CHR '':'', COLON), (CHR ''='', EQ),
      (CHR ''{'', LEFT_BRACE), (CHR ''}'', RIGHT_BRACE),
      (CHR ''('', LEFT_PAREN), (CHR '')'', RIGHT_PAREN),
      (CHR ''['', LEFT_SQUARE_BRACKET), (CHR '']'', RIGHT_SQUARE_BRACKET),
      (CHR '';'', SEMICOLON)]"

section \<open>Lexer (parse/lexer.py)\<close>

text \<open>
  The source text is a \<open>string\<close>; a character is read as its code point, so the model
  covers the code points 0 to 255 of a Python \<open>str\<close>. The four predicates below are
  Python's \<open>str.isspace\<close>, \<open>str.isalpha\<close>, \<open>str.isdigit\<close> and \<open>str.isalnum\<close> on that
  range.
\<close>

definition isspace :: "char \<Rightarrow> bool" where
  "isspace c = (let n = (of_char c :: nat) in
     (9 \<le> n \<and> n \<le> 13) \<or> (28 \<le> n \<and> n \<le> 32) \<or> n = 133 \<or> n = 160)"

definition isalpha :: "char \<Rightarrow> bool" where
  "isalpha c = (let n = (of_char c :: nat) in
     (65 \<le> n \<and> n \<le> 90) \<or> (97 \<le> n \<and> n \<le> 122) \<or> n = 170 \<or> n = 181 \<or> n = 186 \<or>
     (192 \<le> n \<and> n \<le> 214) \<or> (216 \<le> n \<and> n \<le> 246) \<or> 248 \<le> n)"

definition isdigit :: "char \<Rightarrow> bool" where
  "isdigit c = (let n = (of_char c :: nat) in
     (48 \<le> n \<and> n \<le> 57) \<or> n = 178 \<or> n = 179 \<or> n = 185)"

definition isalnum :: "char \<Rightarrow> bool" where
  "isalnum c = (let n = (of_char c :: nat) in
     isalpha c \<or> isdigit c \<or> (188 \<le> n \<and> n \<le> 190))"

definition is_word_char :: "char \<Rightarrow> bool" where
  "is_word_char c = (isalnum c \<or> c = CHR ''_'')"

record LexerState =
  line :: int
  col :: int
  pos :: nat

text \<open>
  The lexer raises \<open>SyntaxError msg line col\<close> (parse/errors.py) or
  \<open>InternalError msg\<close> (common/errors.py); every function below returns the
  exception on the left and its result with the lexer's new position on the right.
\<close>

datatype lex_error = SyntaxError string int int | InternalError string

definition reset :: LexerState where
  "reset = \<lparr>line = 1, col = 1, pos = 0\<rparr>"

definition is_done :: "string \<Rightarrow> LexerState \<Rightarrow> bool" where
  "is_done src st = (pos st \<ge> length src)"

definition next_char :: "string \<Rightarrow> LexerState \<Rightarrow> lex_error + (char \<times> LexerState)" where
  "next_char src st =
     (if is_done src st then Inl (InternalError ''lexer: next called on finished lexer'')
      else let c = src ! pos st in
        Inr (c, if c = CHR 0x0A then st\<lparr>pos := pos st + 1, line := line st + 1, col := 1\<rparr>
                else st\<lparr>pos := pos st + 1, col := col st + 1\<rparr>))"

definition peek :: "string \<Rightarrow> LexerState \<Rightarrow> lex_error + char" where
  "peek src st = (case next_char src st of Inl e \<Rightarrow> Inl e | Inr (c, _) \<Rightarrow> Inr c)"

lemma next_char_pos:
  "next_char src st = Inr (c, st') \<Longrightarrow> pos st' = Suc (pos st) \<and> pos st < length src"
  by (auto simp: next_char_def is_done_def Let_def split: if_splits)

function accept_run ::
  "(char \<Rightarrow> bool) \<Rightarrow> string \<Rightarrow> LexerState \<Rightarrow> lex_error + (string \<times> LexerState)" where
  "accept_run pred src st =
     (if is_done src st then Inr ([], st)
      else case peek src st of
        Inl e \<Rightarrow> Inl e
      | Inr c \<Rightarrow>
          if pred c then
            (case next_char src st of
               Inl e \<Rightarrow> Inl e
             | Inr (_, st') \<Rightarrow>
                 (case accept_run pred src st' of
                    Inl e \<Rightarrow> Inl e
                  | Inr (chars, st'') \<Rightarrow> Inr (c # chars, st'')))
          else Inr ([], st))"
  by pat_completeness auto
termination
  by (relation "measure (\<lambda>(pred, src, st). length src - pos st)")
     (auto dest!: next_char_pos)

declare accept_run.simps [simp del]

definition lex_identifier :: "string \<Rightarrow> LexerState \<Rightarrow> lex_error + (Token \<times> LexerState)" where
  "lex_identifier src st =
     (case accept_run is_word_char src st of
        Inl e \<Rightarrow> Inl e
      | Inr (word, st') \<Rightarrow>
          (case KEYWORDS word of
             Some kind \<Rightarrow> Inr (Token kind word (line st) (col st), st')
           | None \<Rightarrow>
               if word = ''true'' \<or> word = ''false'' then
                 Inr (Token BOOL_LIT word (line st) (col st), st')
               else if word = ''null'' then Inr (Token NULL_LIT word (line st) (col st), st')
               else Inr (Token IDENTIFIER word (line st) (col st), st')))"

text \<open>
  The loop of \<open>_lex_multiline_comment\<close>. Python reads its guard
  \<open>not done and c1 != "*" or c2 != "/"\<close> as \<open>(not done and c1 != "*") or c2 != "/"\<close>.
\<close>

function multiline_comment_loop ::
  "string \<Rightarrow> char \<Rightarrow> char \<Rightarrow> LexerState \<Rightarrow> lex_error + (char \<times> char \<times> LexerState)" where
  "multiline_comment_loop src c1 c2 st =
     (if (\<not> is_done src st \<and> c1 \<noteq> CHR ''*'') \<or> c2 \<noteq> CHR ''/'' then
        (case next_char src st of
           Inl e \<Rightarrow> Inl e
         | Inr (c, st') \<Rightarrow> multiline_comment_loop src c2 c st')
      else Inr (c1, c2, st))"
  by pat_completeness auto
termination
  by (relation "measure (\<lambda>(src, c1, c2, st). length src - pos st)")
     (auto dest!: next_char_pos)

declare multiline_comment_loop.simps [simp del]

definition lex_multiline_comment :: "string \<Rightarrow> LexerState \<Rightarrow> lex_error + LexerState" where
  "lex_multiline_comment src st =
     (case next_char src st of
        Inl e \<Rightarrow> Inl e
      | Inr (c1, st1) \<Rightarrow>
          (case next_char src st1 of
             Inl e \<Rightarrow> Inl e
           | Inr (c2, st2) \<Rightarrow>
               (case multiline_comment_loop src c1 c2 st2 of
                  Inl e \<Rightarrow> Inl e
                | Inr (c1', c2', st3) \<Rightarrow>
                    if c1' \<noteq> CHR ''*'' \<or> c2' \<noteq> CHR ''/'' then
                      Inl (SyntaxError ''unclosed multiline comment'' (line st) (col st))
                    else Inr st3)))"

function lex_line_comment :: "string \<Rightarrow> LexerState \<Rightarrow> lex_error + LexerState" where
  "lex_line_comment src st =
     (if is_done src st then Inr st
      else case next_char src st of
        Inl e \<Rightarrow> Inl e
      | Inr (c, st') \<Rightarrow> if c \<noteq> CHR 0x0A then lex_line_comment src st' else Inr st')"
  by pat_completeness auto
termination
  by (relation "measure (\<lambda>(src, st). length src - pos st)")
     (auto dest!: next_char_pos)

declare lex_line_comment.simps [simp del]

definition lex_num_lit :: "string \<Rightarrow> LexerState \<Rightarrow> lex_error + (Token \<times> LexerState)" where
  "lex_num_lit src st =
     (case accept_run isdigit src st of
        Inl e \<Rightarrow> Inl e
      | Inr (whole, st1) \<Rightarrow>
          (case peek src st1 of
             Inl e \<Rightarrow> Inl e
           | Inr c \<Rightarrow>
               if c = CHR ''.'' then
                 (case next_char src st1 of
                    Inl e \<Rightarrow> Inl e
                  | Inr (_, st2) \<Rightarrow>
                      (case accept_run isdigit src st2 of
                         Inl e \<Rightarrow> Inl e
                       | Inr (frac, st3) \<Rightarrow>
                           Inr (Token FLOAT_LIT (whole @ ''.'' @ frac) (line st) (col st), st3)))
               else Inr (Token INT_LIT whole (line st) (col st), st1)))"

text \<open>
  The loop of \<open>_lex_str_lit\<close>; it returns \<open>in_escape\<close>, \<open>found_close\<close> and the position
  reached.
\<close>

function str_lit_loop ::
  "string \<Rightarrow> bool \<Rightarrow> LexerState \<Rightarrow> lex_error + (bool \<times> bool \<times> LexerState)" where
  "str_lit_loop src in_escape st =
     (if is_done src st then Inr (in_escape, False, st)
      else case next_char src st of
        Inl e \<Rightarrow> Inl e
      | Inr (c, st') \<Rightarrow>
          if in_escape then str_lit_loop src False st'
          else if c = CHR 0x5C then str_lit_loop src True st'
          else if c = CHR 0x22 then Inr (in_escape, True, st')
          else str_lit_loop src in_escape st')"
  by pat_completeness auto
termination
  by (relation "measure (\<lambda>(src, in_escape, st). length src - pos st)")
     (auto dest!: next_char_pos)

declare str_lit_loop.simps [simp del]

definition lex_str_lit :: "string \<Rightarrow> LexerState \<Rightarrow> lex_error + (Token \<times> LexerState)" where
  "lex_str_lit src st =
     (case next_char src st of
        Inl e \<Rightarrow> Inl e
      | Inr (_, st1) \<Rightarrow>
          (case str_lit_loop src False st1 of
             Inl e \<Rightarrow> Inl e
           | Inr (in_escape, found_close, st2) \<Rightarrow>
               if \<not> found_close then
                 Inl (SyntaxError ''unclosed string literal'' (line st) (col st))
               else if in_escape then
                 Inl (SyntaxError ''unexpected escape character at end of string literal''
                        (line st) (col st))
               else Inr (Token STR_LIT (take (pos st2 - pos st) (drop (pos st) src))
                           (line st) (col st), st2)))"

lemma accept_run_pos:
  "accept_run pred src st = Inr (w, st') \<Longrightarrow> pos st \<le> pos st'"
proof (induction pred src st arbitrary: w st' rule: accept_run.induct)
  case (1 pred src st)
  show ?case
  proof (cases "is_done src st")
    case True
    with "1.prems" show ?thesis by (simp add: accept_run.simps [of pred src st])
  next
    case False
    show ?thesis
    proof (cases "peek src st")
      case (Inl e)
      with "1.prems" False show ?thesis by (simp add: accept_run.simps [of pred src st])
    next
      case (Inr c)
      show ?thesis
      proof (cases "pred c")
        case no: False
        with "1.prems" False Inr show ?thesis by (simp add: accept_run.simps [of pred src st])
      next
        case yes: True
        from "1.prems" False Inr yes obtain x st1 chars where
          n: "next_char src st = Inr (x, st1)" and r: "accept_run pred src st1 = Inr (chars, st')"
          by (auto simp: accept_run.simps [of pred src st] split: sum.splits prod.splits)
        from "1.IH" [OF False Inr yes n refl r] have "pos st1 \<le> pos st'" .
        with next_char_pos [OF n] show ?thesis by simp
      qed
    qed
  qed
qed

lemma accept_run_progress:
  assumes "accept_run pred src st = Inr (w, st')" "pos st < length src" "pred (src ! pos st)"
  shows "pos st < pos st'"
proof -
  from assms(2) have nd: "\<not> is_done src st" by (simp add: is_done_def)
  from assms(2) obtain st1 where n: "next_char src st = Inr (src ! pos st, st1)"
    by (simp add: next_char_def is_done_def Let_def)
  then have p: "peek src st = Inr (src ! pos st)" by (simp add: peek_def)
  from assms(1) nd p n assms(3) obtain chars where "accept_run pred src st1 = Inr (chars, st')"
    by (auto simp: accept_run.simps [of pred src st] split: sum.splits prod.splits)
  then have "pos st1 \<le> pos st'" by (rule accept_run_pos)
  with next_char_pos [OF n] show ?thesis by simp
qed

lemma accept_run_stay:
  assumes "pos st < length src" "\<not> pred (src ! pos st)"
  shows "accept_run pred src st = Inr ([], st)"
  using assms
  by (simp add: accept_run.simps [of pred src st] peek_def is_done_def next_char_def Let_def)

lemma multiline_comment_loop_pos:
  "multiline_comment_loop src c1 c2 st = Inr (c1', c2', st') \<Longrightarrow> pos st \<le> pos st'"
proof (induction src c1 c2 st arbitrary: c1' c2' st' rule: multiline_comment_loop.induct)
  case (1 src c1 c2 st)
  show ?case
  proof (cases "(\<not> is_done src st \<and> c1 \<noteq> CHR ''*'') \<or> c2 \<noteq> CHR ''/''")
    case True
    with "1.prems" obtain c st1 where
      n: "next_char src st = Inr (c, st1)"
      and r: "multiline_comment_loop src c2 c st1 = Inr (c1', c2', st')"
      by (auto simp: multiline_comment_loop.simps [of src c1 c2 st] split: sum.splits)
    from "1.IH" [OF True n refl r] have "pos st1 \<le> pos st'" .
    with next_char_pos [OF n] show ?thesis by simp
  next
    case False
    with "1.prems" show ?thesis
      by (auto simp: multiline_comment_loop.simps [of src c1 c2 st])
  qed
qed

lemma lex_multiline_comment_pos:
  assumes "lex_multiline_comment src st = Inr st'"
  shows "pos st \<le> pos st'"
proof -
  from assms obtain c1 st1 c2 st2 c1' c2' where
    n1: "next_char src st = Inr (c1, st1)" and n2: "next_char src st1 = Inr (c2, st2)"
    and l: "multiline_comment_loop src c1 c2 st2 = Inr (c1', c2', st')"
    by (auto simp: lex_multiline_comment_def split: sum.splits if_splits)
  from next_char_pos [OF n1] next_char_pos [OF n2] multiline_comment_loop_pos [OF l]
  show ?thesis by simp
qed

lemma lex_line_comment_pos:
  "lex_line_comment src st = Inr st' \<Longrightarrow> pos st \<le> pos st'"
proof (induction src st arbitrary: st' rule: lex_line_comment.induct)
  case (1 src st)
  show ?case
  proof (cases "is_done src st")
    case True
    with "1.prems" show ?thesis by (simp add: lex_line_comment.simps [of src st])
  next
    case False
    with "1.prems" obtain c st1 where n: "next_char src st = Inr (c, st1)"
      by (auto simp: lex_line_comment.simps [of src st] split: sum.splits)
    show ?thesis
    proof (cases "c \<noteq> CHR 0x0A")
      case True
      with "1.prems" False n have r: "lex_line_comment src st1 = Inr st'"
        by (simp add: lex_line_comment.simps [of src st])
      from "1.IH" [OF False n refl True r] next_char_pos [OF n] show ?thesis by simp
    next
      case nl: False
      with "1.prems" False n have "st' = st1"
        by (simp add: lex_line_comment.simps [of src st])
      with next_char_pos [OF n] show ?thesis by simp
    qed
  qed
qed

lemma str_lit_loop_pos:
  "str_lit_loop src esc st = Inr (esc', fc, st') \<Longrightarrow> pos st \<le> pos st'"
proof (induction src esc st arbitrary: esc' fc st' rule: str_lit_loop.induct)
  case (1 src esc st)
  show ?case
  proof (cases "is_done src st")
    case True
    with "1.prems" show ?thesis by (simp add: str_lit_loop.simps [of src esc st])
  next
    case False
    with "1.prems" obtain c st1 where n: "next_char src st = Inr (c, st1)"
      by (auto simp: str_lit_loop.simps [of src esc st] split: sum.splits)
    note p = next_char_pos [OF n]
    note u = "1.prems" [unfolded str_lit_loop.simps [of src esc st]]
    consider (a) "esc" | (b) "\<not> esc" "c = CHR 0x5C" | (c) "\<not> esc" "c \<noteq> CHR 0x5C" "c = CHR 0x22"
      | (d) "\<not> esc" "c \<noteq> CHR 0x5C" "c \<noteq> CHR 0x22" by blast
    then show ?thesis
    proof cases
      case a
      with u False n have "str_lit_loop src False st1 = Inr (esc', fc, st')"
        by simp
      from "1.IH"(1) [OF False n refl a this] p show ?thesis by simp
    next
      case b
      with u False n have "str_lit_loop src True st1 = Inr (esc', fc, st')"
        by simp
      from "1.IH"(2) [OF False n refl b this] p show ?thesis by simp
    next
      case c
      with u False n have "st' = st1"
        by simp
      with p show ?thesis by simp
    next
      case d
      with u False n have "str_lit_loop src esc st1 = Inr (esc', fc, st')"
        by simp
      from "1.IH"(3) [OF False n refl d this] p show ?thesis by simp
    qed
  qed
qed

function lex_any :: "string \<Rightarrow> LexerState \<Rightarrow> lex_error + (Token option \<times> LexerState)" where
  "lex_any src st =
     (case accept_run isspace src st of
        Inl e \<Rightarrow> Inl e
      | Inr (_, st0) \<Rightarrow>
          if is_done src st0 then Inr (None, st0)
          else case next_char src st0 of
            Inl e \<Rightarrow> Inl e
          | Inr (c, st1) \<Rightarrow>
              if isalpha c \<or> c = CHR ''_'' then
                (case lex_identifier src st0 of
                   Inl e \<Rightarrow> Inl e
                 | Inr (tok, st') \<Rightarrow> Inr (Some tok, st'))
              else case SYNTAX c of
                Some kind \<Rightarrow> Inr (Some (Token kind [c] (line st0) (col st0)), st1)
              | None \<Rightarrow>
                  if c = CHR ''/'' then
                    (if is_done src st1 then
                       Inl (SyntaxError (''unexpected character '' @ [CHR 0x27, CHR ''/'', CHR 0x27])
                              (line st0) (col st0))
                     else case peek src st1 of
                       Inl e \<Rightarrow> Inl e
                     | Inr nxt \<Rightarrow>
                         (case (if nxt = CHR ''*'' then lex_multiline_comment src st1
                                else if nxt = CHR ''/'' then lex_line_comment src st1
                                else Inl (SyntaxError
                                       (''unexpected character '' @ [CHR 0x27, CHR ''/'', CHR 0x27])
                                       (line st0) (col st0))) of
                            Inl e \<Rightarrow> Inl e
                          | Inr st2 \<Rightarrow>
                              if is_done src st2 then Inr (None, st2) else lex_any src st2))
                  else if c = CHR ''.'' then
                    (if is_done src st1 then
                       Inl (SyntaxError (''unexpected character '' @ [CHR 0x27, CHR ''.'', CHR 0x27])
                              (line st0) (col st0))
                     else case peek src st1 of
                       Inl e \<Rightarrow> Inl e
                     | Inr p \<Rightarrow>
                         if isalpha p \<or> p = CHR ''_'' then
                           (case accept_run is_word_char src st1 of
                              Inl e \<Rightarrow> Inl e
                            | Inr (attr, st2) \<Rightarrow>
                                Inr (Some (Token ATTR_ACCESS (''.'' @ attr) (line st0) (col st0)),
                                     st2))
                         else
                           (case lex_num_lit src st0 of
                              Inl e \<Rightarrow> Inl e
                            | Inr (tok, st') \<Rightarrow> Inr (Some tok, st')))
                  else if c = CHR 0x22 then
                    (case lex_str_lit src st0 of
                       Inl e \<Rightarrow> Inl e
                     | Inr (tok, st') \<Rightarrow> Inr (Some tok, st'))
                  else if isdigit c then
                    (case lex_num_lit src st0 of
                       Inl e \<Rightarrow> Inl e
                     | Inr (tok, st') \<Rightarrow> Inr (Some tok, st'))
                  else
                    Inl (SyntaxError (''unexpected character '' @ [CHR 0x27, c, CHR 0x27])
                           (line st0) (col st0)))"
  by pat_completeness auto
termination
proof (relation "measure (\<lambda>(src, st). length src - pos st)", goal_cases)
  case 1
  show ?case by simp
next
  case 2
  then show ?case
    by (auto simp: is_done_def split: if_splits
             dest!: accept_run_pos next_char_pos lex_multiline_comment_pos lex_line_comment_pos)
qed

declare lex_any.simps [simp del]

lemma isalpha_is_word_char: "isalpha c \<or> c = CHR ''_'' \<Longrightarrow> is_word_char c"
  by (auto simp: is_word_char_def isalnum_def Let_def)

lemma lex_identifier_progress:
  assumes "lex_identifier src st = Inr (tok, st')" "pos st < length src"
    "is_word_char (src ! pos st)"
  shows "pos st < pos st'"
proof -
  from assms(1) obtain w where "accept_run is_word_char src st = Inr (w, st')"
    by (auto simp: lex_identifier_def split: sum.splits option.splits if_splits)
  from accept_run_progress [OF this assms(2,3)] show ?thesis .
qed

lemma lex_num_lit_progress:
  assumes l: "lex_num_lit src st = Inr (tok, st')" and b: "pos st < length src"
    and c: "isdigit (src ! pos st) \<or> src ! pos st = CHR ''.''"
  shows "pos st < pos st'"
proof (cases "isdigit (src ! pos st)")
  case True
  from l obtain whole st1 where a: "accept_run isdigit src st = Inr (whole, st1)"
    by (auto simp: lex_num_lit_def split: sum.splits)
  from accept_run_progress [OF a b True] have p: "pos st < pos st1" .
  from l a have "st' = st1 \<or> (\<exists>x st2 frac. next_char src st1 = Inr (x, st2) \<and>
      accept_run isdigit src st2 = Inr (frac, st'))"
    by (auto simp: lex_num_lit_def split: sum.splits if_splits)
  then show ?thesis
  proof
    assume "st' = st1" with p show ?thesis by simp
  next
    assume "\<exists>x st2 frac. next_char src st1 = Inr (x, st2) \<and>
      accept_run isdigit src st2 = Inr (frac, st')"
    then obtain x st2 frac where n: "next_char src st1 = Inr (x, st2)"
      and r: "accept_run isdigit src st2 = Inr (frac, st')" by blast
    from next_char_pos [OF n] accept_run_pos [OF r] p show ?thesis by simp
  qed
next
  case False
  with c have dot: "src ! pos st = CHR ''.''" by simp
  from b False have a: "accept_run isdigit src st = Inr ([], st)" by (rule accept_run_stay)
  from b dot obtain st2 where n: "next_char src st = Inr (CHR ''.'', st2)"
    by (simp add: next_char_def is_done_def Let_def)
  then have pk: "peek src st = Inr (CHR ''.'')" by (simp add: peek_def)
  from l a pk n obtain frac where r: "accept_run isdigit src st2 = Inr (frac, st')"
    by (auto simp: lex_num_lit_def split: sum.splits)
  from next_char_pos [OF n] accept_run_pos [OF r] show ?thesis by simp
qed

lemma lex_str_lit_progress:
  assumes "lex_str_lit src st = Inr (tok, st')"
  shows "pos st < pos st'"
proof -
  from assms obtain x st1 e f where n: "next_char src st = Inr (x, st1)"
    and r: "str_lit_loop src False st1 = Inr (e, f, st')"
    by (auto simp: lex_str_lit_def split: sum.splits if_splits)
  from next_char_pos [OF n] str_lit_loop_pos [OF r] show ?thesis by simp
qed

lemma lex_any_progress:
  "lex_any src st = Inr (Some tok, st') \<Longrightarrow> pos st < pos st' \<and> pos st < length src"
proof (induction src st arbitrary: tok st' rule: lex_any.induct)
  case (1 src st)
  note u = "1.prems" [unfolded lex_any.simps [of src st]]
  from u obtain w st0 where ar: "accept_run isspace src st = Inr (w, st0)"
    by (auto split: sum.splits)
  note a = accept_run_pos [OF ar]
  from u ar have nd: "\<not> is_done src st0" by (auto split: if_splits)
  then have b: "pos st0 < length src" by (simp add: is_done_def)
  from b obtain st1 where n: "next_char src st0 = Inr (src ! pos st0, st1)"
    by (simp add: next_char_def is_done_def Let_def)
  note p1 = next_char_pos [OF n]
  define c where "c = src ! pos st0"
  note n' = n [folded c_def]
  have goal: "pos st0 < pos st'"
  proof (cases "isalpha c \<or> c = CHR ''_''")
    case True
    with u ar nd n' have "lex_identifier src st0 = Inr (tok, st')"
      by (auto split: sum.splits)
    from lex_identifier_progress [OF this b] True show ?thesis
      by (simp add: isalpha_is_word_char c_def)
  next
    case na: False
    show ?thesis
    proof (cases "SYNTAX c")
      case (Some k)
      with u ar nd n' na have "st' = st1" by auto
      with p1 show ?thesis by simp
    next
      case None
      consider (slash) "c = CHR ''/''" | (dot) "c = CHR ''.''" | (quote) "c = CHR 0x22"
        | (digit) "c \<noteq> CHR ''/''" "c \<noteq> CHR ''.''" "c \<noteq> CHR 0x22" "isdigit c"
        | (other) "c \<noteq> CHR ''/''" "c \<noteq> CHR ''.''" "c \<noteq> CHR 0x22" "\<not> isdigit c"
        by blast
      then show ?thesis
      proof cases
        case slash
        from u ar nd n' na None slash have nd1: "\<not> is_done src st1"
          by (auto split: if_splits)
        from u ar nd n' na None slash nd1 obtain nxt where pk: "peek src st1 = Inr nxt"
          by (auto split: sum.splits)
        from u ar nd n' na None slash nd1 pk obtain st2 where
          cm: "(if nxt = CHR ''*'' then lex_multiline_comment src st1
                else if nxt = CHR ''/'' then lex_line_comment src st1
                else Inl (SyntaxError (''unexpected character '' @ [CHR 0x27, CHR ''/'', CHR 0x27])
                       (line st0) (col st0))) = Inr st2"
          by (auto split: sum.splits simp del: append.simps)
        from u ar nd n' na None slash nd1 pk cm have nd2: "\<not> is_done src st2"
          by (auto split: if_splits simp del: append.simps)
        from u ar nd n' na None slash nd1 pk cm nd2 have
          r: "lex_any src st2 = Inr (Some tok, st')"
          by (simp del: append.simps)
        from "1.IH" [OF ar refl nd n' refl na None slash nd1 pk cm nd2 r]
        have "pos st2 < pos st'" by simp
        moreover from cm have "pos st1 \<le> pos st2"
          by (auto split: if_splits dest: lex_multiline_comment_pos lex_line_comment_pos)
        ultimately show ?thesis using p1 by simp
      next
        case dot
        have ns: "c \<noteq> CHR ''/''" using dot by simp
        from u ar nd n' na None dot have nd1: "\<not> is_done src st1"
          by (auto split: if_splits)
        from u ar nd n' na None dot nd1 obtain p where pk: "peek src st1 = Inr p"
          by (auto split: sum.splits)
        show ?thesis
        proof (cases "isalpha p \<or> p = CHR ''_''")
          case True
          with u ar nd n' na None dot nd1 pk obtain attr where
            "accept_run is_word_char src st1 = Inr (attr, st')"
            by (auto split: sum.splits)
          from accept_run_pos [OF this] p1 show ?thesis by simp
        next
          case False
          with u ar nd n' na None dot nd1 pk have "lex_num_lit src st0 = Inr (tok, st')"
            by (auto split: sum.splits)
          from lex_num_lit_progress [OF this b] dot show ?thesis by (simp add: c_def)
        qed
      next
        case quote
        with u ar nd n' na None have "lex_str_lit src st0 = Inr (tok, st')"
          by (auto split: sum.splits)
        then show ?thesis by (rule lex_str_lit_progress)
      next
        case digit
        with u ar nd n' na None have "lex_num_lit src st0 = Inr (tok, st')"
          by (auto split: sum.splits)
        from lex_num_lit_progress [OF this b] digit show ?thesis by (simp add: c_def)
      next
        case other
        with u ar nd n' na None show ?thesis by auto
      qed
    qed
  qed
  with a b show ?case by simp
qed

function lex_loop :: "string \<Rightarrow> LexerState \<Rightarrow> lex_error + (Token list \<times> LexerState)" where
  "lex_loop src st =
     (case lex_any src st of
        Inl e \<Rightarrow> Inl e
      | Inr (None, st') \<Rightarrow> Inr ([], st')
      | Inr (Some tok, st') \<Rightarrow>
          (case lex_loop src st' of
             Inl e \<Rightarrow> Inl e
           | Inr (tokens, st'') \<Rightarrow> Inr (tok # tokens, st'')))"
  by pat_completeness auto
termination
  by (relation "measure (\<lambda>(src, st). length src - pos st)")
     (auto dest!: lex_any_progress)

declare lex_loop.simps [simp del]

definition lex :: "string \<Rightarrow> lex_error + Token list" where
  "lex src =
     (case lex_loop src reset of
        Inl e \<Rightarrow> Inl e
      | Inr (tokens, st) \<Rightarrow> Inr (tokens @ [Token EOF '''' (line st) (col st)]))"


subsection \<open>The lexer on a source that ends in a number or in an open construct\<close>

text \<open>
  Every function of the lexer above is total: each loop of the source is a recursion on
  the number of characters left. So \<open>lex\<close> returns on every source, and what it returns
  is a token list that ends in the EOF token, a \<open>SyntaxError\<close>, or an \<open>InternalError\<close>.
\<close>

lemma lex_ends_in_EOF:
  assumes "lex src = Inr tokens"
  shows "\<exists>l c. tokens \<noteq> [] \<and> last tokens = Token EOF [] l c"
  using assms by (auto simp: lex_def split: sum.splits)

text \<open>
  Claim C3: for every source string, \<open>lex\<close> terminates and either returns a token sequence
  whose last token is EOF or raises a syntax error; it raises no other kind of exception.
  The code does terminate, but on the one-character source \<open>1\<close> it raises the internal
  error of \<open>_next\<close>: after the digits, \<open>_lex_num_lit\<close> peeks without asking whether the
  input is finished.
\<close>

theorem lex_number_at_end_of_input:
  "lex ''1'' = Inl (InternalError ''lexer: next called on finished lexer'')"
  by code_simp

text \<open>
  The same happens in an unclosed multiline comment: the loop's guard holds at the end of
  the input whenever the last character read is not \<open>/\<close>, and the loop reads on.
\<close>

lemma lex_unclosed_multiline_comment:
  "lex ''/* abc'' = Inl (InternalError ''lexer: next called on finished lexer'')"
  by code_simp

lemma lex_unclosed_multiline_comment_slash:
  "lex ''/* a/'' = Inl (SyntaxError ''unclosed multiline comment'' 1 2)"
  by code_simp

text \<open>
  Claim C9: when the input ends inside a string literal, the lexer reports
  "unclosed string literal" if the end is outside an escape, and "unexpected escape
  character at end of string literal" if the end comes right after an unescaped
  backslash. On the source made of a double quote and a backslash the code reports the
  first message: \<open>_lex_str_lit\<close> tests \<open>found_close\<close> before \<open>in_escape\<close>.
\<close>

theorem lex_str_lit_eof_in_escape:
  "lex [CHR 0x22, CHR 0x5C] = Inl (SyntaxError ''unclosed string literal'' 1 1)"
  by code_simp

text \<open>
  The second message is never produced: the loop leaves with \<open>found_close\<close> only on an
  unescaped quote, where \<open>in_escape\<close> is false.
\<close>

lemma str_lit_loop_closed_not_in_escape:
  "str_lit_loop src esc st = Inr (esc', True, st') \<Longrightarrow> \<not> esc'"
proof (induction src esc st arbitrary: esc' st' rule: str_lit_loop.induct)
  case (1 src esc st)
  note u = "1.prems" [unfolded str_lit_loop.simps [of src esc st]]
  from u have nd: "\<not> is_done src st" by (auto split: if_splits)
  with u obtain c st1 where n: "next_char src st = Inr (c, st1)"
    by (auto split: sum.splits)
  consider (a) "esc" | (b) "\<not> esc" "c = CHR 0x5C" | (c) "\<not> esc" "c \<noteq> CHR 0x5C" "c = CHR 0x22"
    | (d) "\<not> esc" "c \<noteq> CHR 0x5C" "c \<noteq> CHR 0x22" by blast
  then show ?case
  proof cases
    case a
    with u nd n have "str_lit_loop src False st1 = Inr (esc', True, st')" by simp
    from "1.IH"(1) [OF nd n refl a this] show ?thesis .
  next
    case b
    with u nd n have "str_lit_loop src True st1 = Inr (esc', True, st')" by simp
    from "1.IH"(2) [OF nd n refl b this] show ?thesis .
  next
    case c
    with u nd n show ?thesis by simp
  next
    case d
    with u nd n have "str_lit_loop src esc st1 = Inr (esc', True, st')" by simp
    from "1.IH"(3) [OF nd n refl d this] show ?thesis .
  qed
qed

lemma next_char_error:
  "next_char src st = Inl e \<Longrightarrow> e = InternalError ''lexer: next called on finished lexer''"
  by (auto simp: next_char_def Let_def split: if_splits)

lemma str_lit_loop_error:
  "str_lit_loop src esc st = Inl e \<Longrightarrow> e = InternalError ''lexer: next called on finished lexer''"
proof (induction src esc st rule: str_lit_loop.induct)
  case (1 src esc st)
  note u = "1.prems" [unfolded str_lit_loop.simps [of src esc st]]
  from u have nd: "\<not> is_done src st" by (auto split: if_splits)
  show ?case
  proof (cases "next_char src st")
    case (Inl e')
    with u nd show ?thesis by (auto dest: next_char_error)
  next
    case (Inr p)
    then obtain c st1 where n: "next_char src st = Inr (c, st1)" by (cases p) auto
    consider (a) "esc" | (b) "\<not> esc" "c = CHR 0x5C" | (c) "\<not> esc" "c \<noteq> CHR 0x5C" "c = CHR 0x22"
      | (d) "\<not> esc" "c \<noteq> CHR 0x5C" "c \<noteq> CHR 0x22" by blast
    then show ?thesis
    proof cases
      case a
      with u nd n have "str_lit_loop src False st1 = Inl e" by simp
      from "1.IH"(1) [OF nd n refl a this] show ?thesis .
    next
      case b
      with u nd n have "str_lit_loop src True st1 = Inl e" by simp
      from "1.IH"(2) [OF nd n refl b this] show ?thesis .
    next
      case c
      with u nd n show ?thesis by simp
    next
      case d
      with u nd n have "str_lit_loop src esc st1 = Inl e" by simp
      from "1.IH"(3) [OF nd n refl d this] show ?thesis .
    qed
  qed
qed

lemma lex_str_lit_never_unexpected_escape:
  "lex_str_lit src st \<noteq>
     Inl (SyntaxError ''unexpected escape character at end of string literal'' l c)"
  by (auto simp: lex_str_lit_def split: sum.splits
           dest: str_lit_loop_closed_not_in_escape next_char_error str_lit_loop_error)


section \<open>Syntax trees (parse/nodes.py)\<close>

text \<open>
  A node's line and column only reach the text of error messages; the trees below leave
  them out. \<open>SimpleLitExpr\<close> holds the literal's value; float literals are not part of
  the model.
\<close>

datatype lit = BoolLit bool | IntLit int | StrLit string | NullLit

datatype expr =
    CallExpr expr "expr list"
  | SimpleLitExpr lit
  | AssignmentExpr string expr
  | AccessExpr string
  | AttrAccessExpr expr string
  | AttrAssignmentExpr expr string expr
  | ItemAccessExpr expr expr
  | ItemAssignmentExpr expr expr expr
  | ListLitExpr "expr list"
  | DictLitExpr "(expr \<times> expr) list"

text \<open>
  The fields of a statement are in the order of the dataclasses: \<open>IfStmt cond if_branch
  else_branch\<close>, \<open>TryStmt try_block catch_block err_var_binding_name\<close>. A Python
  \<open>TryStmt\<close> object holds whatever its constructor was given, and the parser builds it in
  two ways: \<open>_parse_try_stmt\<close> passes a block as \<open>catch_block\<close> and a name (or None) as
  \<open>err_var_binding_name\<close>, \<open>_rewrite_continue_stmts\<close> passes them the other way round.
  \<open>TryStmtSwapped try_block catch_block err_var_binding_name\<close> is the second shape:
  its \<open>catch_block\<close> is a name or None and its \<open>err_var_binding_name\<close> is a node.
  \<open>ExprStmt\<close> is an expression in statement position.
\<close>

datatype stmt =
    BlockStmt "stmt list"
  | VarDeclStmt string expr
  | IfStmt expr stmt "stmt option"
  | ReturnStmt "expr option"
  | WhileLoopStmt expr stmt
  | IteratorBasedForLoopStmt string expr stmt
  | BreakStmt
  | ContinueStmt
  | TryStmt stmt stmt "string option"
  | TryStmtSwapped stmt "string option" stmt
  | ExprStmt expr

datatype top_level_node = FnDefinition string "string list" stmt | Stmt stmt

section \<open>Run-time values, exceptions and the environment (runtime/interpreter.py)\<close>

text \<open>
  A \<open>Var\<close> object has a name, which no code ever updates, and a value, which \<open>assign\<close>
  updates in place. Two stacks that hold the same \<open>Var\<close> object see each other's
  assignments, so the model keeps the values in a store (\<open>cells\<close>): a \<open>Var\<close> is its name
  and the address of its value. The name is whatever \<open>push\<close> was given: a string, or a
  node in the one place where the interpreter passes one.
\<close>

datatype var_name = Str string | Node stmt

type_synonym Var = "var_name \<times> nat"

record RuntimeEnv =
  stack :: "Var list"
  stack_offsets :: "nat list"
  decl_variables_in_scope :: "string set list"

text \<open>
  Exceptions of the host that the interpreter tells apart by class, and the text of
  a \<open>RuntimeError\<close> (runtime/errors.py), kept symbolic: a constructor for each message
  of the interpreter, with the parts the message is formatted from. \<open>HostMsg\<close> and
  \<open>SentinelMsg\<close> are \<open>str(e)\<close> of a host exception and of a \<open>Sentinel\<close>.
\<close>

datatype host_exc = AttributeError | TypeError | IndexError | StopIteration | OtherException string

datatype msg =
    UndefinedVariable string
  | CannotAssignUndeclared string
  | CannotRedeclare string
  | WrongArgCount string nat nat
  | CannotIterate
  | CallBeforeDefined expr
  | NotCallable expr
  | CannotAccessAttr string
  | CannotSetAttr string
  | CannotAccessItem
  | CannotAssignItem
  | ErrorCalling expr msg
  | HostMsg host_exc
  | SentinelMsg

text \<open>
  The exceptions a \<open>try\<close> statement catches: the interpreter's \<open>RuntimeError\<close> and any
  other Python exception that is neither an \<open>InternalError\<close> nor a \<open>Sentinel\<close>.
\<close>

datatype exn = RuntimeError msg | PyException host_exc

fun exn_msg :: "exn \<Rightarrow> msg" where
  "exn_msg (RuntimeError m) = m"
| "exn_msg (PyException e) = HostMsg e"

text \<open>
  Values: None, booleans, integers, strings, a reference to an object of the host (a
  list, a dict, an iterator, a bound method), a built-in function of the catalogue by
  its name, a caught exception, the prototype \<open>fn_prototype\<close>, and the closure that
  \<open>_compile_fn\<close> returns: the definition's name, parameter names and body, and the
  captured environment.
\<close>

datatype val =
    VNone | VBool bool | VInt int | VStr string
  | VObj nat
  | VBuiltin string
  | VExc exn
  | VProto
  | VFn string "string list" stmt RuntimeEnv

text \<open>
  How a statement ends: normally, with a caught-able exception, or with one of the three
  \<open>Sentinel\<close> exceptions.
\<close>

datatype outcome = Normal | Raise exn | Break | Continue | Return val

text \<open>
  The state beside the environment: the values of all \<open>Var\<close> objects, and the state
  of the host (its objects, its output). The operations of the host are parameters of
  the interpreter: Python's \<open>bool\<close>, \<open>callable\<close>, a call of a host callable,
  \<open>getattr\<close>, \<open>setattr\<close>, \<open>obj[key]\<close>, \<open>obj[key] = val\<close>, a new list with given
  elements, a new empty dict, \<open>iter\<close> and \<open>next\<close>.
\<close>

record 'h state =
  cells :: "val list"
  heap :: 'h

record 'h host =
  py_bool :: "val \<Rightarrow> 'h \<Rightarrow> bool"
  py_callable :: "val \<Rightarrow> 'h \<Rightarrow> bool"
  py_call :: "val \<Rightarrow> val list \<Rightarrow> 'h \<Rightarrow> (host_exc + val) \<times> 'h"
  py_getattr :: "val \<Rightarrow> string \<Rightarrow> 'h \<Rightarrow> host_exc + val"
  py_setattr :: "val \<Rightarrow> string \<Rightarrow> val \<Rightarrow> 'h \<Rightarrow> host_exc + 'h"
  py_getitem :: "val \<Rightarrow> val \<Rightarrow> 'h \<Rightarrow> host_exc + val"
  py_setitem :: "val \<Rightarrow> val \<Rightarrow> val \<Rightarrow> 'h \<Rightarrow> host_exc + 'h"
  py_list :: "val list \<Rightarrow> 'h \<Rightarrow> val \<times> 'h"
  py_dict :: "'h \<Rightarrow> val \<times> 'h"
  py_iter :: "val \<Rightarrow> 'h \<Rightarrow> (host_exc + val) \<times> 'h"
  py_next :: "val \<Rightarrow> 'h \<Rightarrow> (host_exc + val) \<times> 'h"

fun lit_val :: "lit \<Rightarrow> val" where
  "lit_val (BoolLit b) = VBool b"
| "lit_val (IntLit i) = VInt i"
| "lit_val (StrLit s) = VStr s"
| "lit_val NullLit = VNone"

subsection \<open>RuntimeEnv\<close>

definition new_env :: RuntimeEnv where
  "new_env = \<lparr>stack = [], stack_offsets = [], decl_variables_in_scope = [{}]\<rparr>"

text \<open>
  \<open>copy\<close> copies the three lists and every set, not the \<open>Var\<close> objects. The
  constructor replaces an empty list of sets by \<open>[set()]\<close>.
\<close>

definition copy :: "RuntimeEnv \<Rightarrow> RuntimeEnv" where
  "copy env =
     \<lparr>stack = stack env, stack_offsets = stack_offsets env,
      decl_variables_in_scope =
        (if decl_variables_in_scope env = [] then [{}] else decl_variables_in_scope env)\<rparr>"

definition push :: "RuntimeEnv \<Rightarrow> var_name \<Rightarrow> val \<Rightarrow> 'h state \<Rightarrow> RuntimeEnv \<times> 'h state" where
  "push env name v s =
     (env\<lparr>stack := stack env @ [(name, length (cells s))]\<rparr>, s\<lparr>cells := cells s @ [v]\<rparr>)"

definition lookup :: "RuntimeEnv \<Rightarrow> string \<Rightarrow> 'h state \<Rightarrow> exn + val" where
  "lookup env name s =
     (case find (\<lambda>var. fst var = Str name) (rev (stack env)) of
        Some var \<Rightarrow> Inr (cells s ! snd var)
      | None \<Rightarrow> Inl (RuntimeError (UndefinedVariable name)))"

definition has :: "RuntimeEnv \<Rightarrow> string \<Rightarrow> bool" where
  "has env name = (\<exists>var \<in> set (stack env). fst var = Str name)"

text \<open>
  \<open>assign\<close> walks the whole stack from the top and writes the value into every \<open>Var\<close>
  of that name.
\<close>

definition assign_cells :: "Var list \<Rightarrow> string \<Rightarrow> val \<Rightarrow> val list \<Rightarrow> val list" where
  "assign_cells vars name v cs =
     fold (\<lambda>var cs. if fst var = Str name then cs[snd var := v] else cs) (rev vars) cs"

definition assign :: "RuntimeEnv \<Rightarrow> string \<Rightarrow> val \<Rightarrow> 'h state \<Rightarrow> (exn + unit) \<times> 'h state" where
  "assign env name v s =
     (let s' = s\<lparr>cells := assign_cells (stack env) name v (cells s)\<rparr> in
      if has env name then (Inr (), s')
      else (Inl (RuntimeError (CannotAssignUndeclared name)), s'))"

text \<open>
  \<open>declare_var\<close> is \<open>RuntimeEnv.declare\<close>. It reads and updates the last set of \<open>_decl_variables_in_scope\<close>; on an empty
  list Python's \<open>[-1]\<close> raises IndexError.
\<close>

definition declare_var ::
  "RuntimeEnv \<Rightarrow> string \<Rightarrow> val \<Rightarrow> 'h state \<Rightarrow> (exn + unit) \<times> RuntimeEnv \<times> 'h state" where
  "declare_var env name v s =
     (let ds = decl_variables_in_scope env in
      if ds = [] then (Inl (PyException IndexError), env, s)
      else if name \<in> last ds then (Inl (RuntimeError (CannotRedeclare name)), env, s)
      else
        (let (env', s') = push (env\<lparr>decl_variables_in_scope := butlast ds @ [insert name (last ds)]\<rparr>)
                            (Str name) v s
         in (Inr (), env', s')))"

text \<open>
  \<open>enter_scope\<close> is a context manager: \<open>with_scope body\<close> is \<open>with env.enter_scope():
  body\<close>. The \<open>finally\<close> part runs however the body ends, and keeps the body's outcome
  unless one of its own \<open>pop\<close> calls raises.
\<close>

definition scope_entry :: "RuntimeEnv \<Rightarrow> RuntimeEnv" where
  "scope_entry env =
     env\<lparr>stack_offsets := stack_offsets env @ [length (stack env)],
         decl_variables_in_scope := decl_variables_in_scope env @ [{}]\<rparr>"

definition scope_exit :: "outcome \<Rightarrow> RuntimeEnv \<Rightarrow> outcome \<times> RuntimeEnv" where
  "scope_exit out env =
     (if stack_offsets env = [] then (Raise (PyException IndexError), env)
      else
        (let env1 = env\<lparr>stack_offsets := butlast (stack_offsets env),
                        stack := take (last (stack_offsets env)) (stack env)\<rparr>
         in if decl_variables_in_scope env1 = [] then (Raise (PyException IndexError), env1)
            else (out, env1\<lparr>decl_variables_in_scope := butlast (decl_variables_in_scope env1)\<rparr>)))"

definition with_scope ::
  "(RuntimeEnv \<Rightarrow> 'h state \<Rightarrow> (outcome \<times> RuntimeEnv \<times> 'h state) option) \<Rightarrow>
   RuntimeEnv \<Rightarrow> 'h state \<Rightarrow> (outcome \<times> RuntimeEnv \<times> 'h state) option" where
  "with_scope body env s =
     (case body (scope_entry env) s of
        None \<Rightarrow> None
      | Some (out, env1, s1) \<Rightarrow>
          (let (out', env2) = scope_exit out env1 in Some (out', env2, s1)))"

text \<open>The loop of \<open>compiled\<close> over \<open>zip(decl.param_names, args)\<close>.\<close>

fun declare_params ::
  "RuntimeEnv \<Rightarrow> (string \<times> val) list \<Rightarrow> 'h state \<Rightarrow> (exn + unit) \<times> RuntimeEnv \<times> 'h state" where
  "declare_params env [] s = (Inr (), env, s)"
| "declare_params env ((param, arg) # rest) s =
     (case declare_var env param arg s of
        (Inl x, env', s') \<Rightarrow> (Inl x, env', s')
      | (Inr _, env', s') \<Rightarrow> declare_params env' rest s')"


subsection \<open>Interpreter\<close>

text \<open>
  The evaluator's methods, with a number of steps \<open>n\<close> that every call uses up: \<open>None\<close>
  is "the steps ran out", and a program that Python runs forever gives \<open>None\<close> for
  every \<open>n\<close>. An expression returns an exception or a value, and the new state; it
  never changes the lists of the environment it is given. A statement returns how it
  ended, the environment and the state. \<open>compiled\<close> is the closure of \<open>_compile_fn\<close>
  applied to its arguments; the exception that leaves it is returned as its \<open>str\<close>,
  which is all that \<open>_evaluate_call_expr\<close> uses of it.
\<close>

function evaluate_expr ::
    "'h host \<Rightarrow> nat \<Rightarrow> expr \<Rightarrow> RuntimeEnv \<Rightarrow> 'h state \<Rightarrow> ((exn + val) \<times> 'h state) option"
  and evaluate_exprs ::
    "'h host \<Rightarrow> nat \<Rightarrow> expr list \<Rightarrow> RuntimeEnv \<Rightarrow> 'h state \<Rightarrow> ((exn + val list) \<times> 'h state) option"
  and evaluate_entries ::
    "'h host \<Rightarrow> nat \<Rightarrow> val \<Rightarrow> (expr \<times> expr) list \<Rightarrow> RuntimeEnv \<Rightarrow> 'h state \<Rightarrow>
       ((exn + val) \<times> 'h state) option"
  and compiled ::
    "'h host \<Rightarrow> nat \<Rightarrow> string \<Rightarrow> string list \<Rightarrow> stmt \<Rightarrow> RuntimeEnv \<Rightarrow> val list \<Rightarrow> 'h state \<Rightarrow>
       ((msg + val) \<times> 'h state) option"
  and visit_stmt ::
    "'h host \<Rightarrow> nat \<Rightarrow> stmt \<Rightarrow> RuntimeEnv \<Rightarrow> 'h state \<Rightarrow> (outcome \<times> RuntimeEnv \<times> 'h state) option"
  and visit_block_stmt ::
    "'h host \<Rightarrow> nat \<Rightarrow> stmt \<Rightarrow> RuntimeEnv \<Rightarrow> 'h state \<Rightarrow> (outcome \<times> RuntimeEnv \<times> 'h state) option"
  and visit_stmts ::
    "'h host \<Rightarrow> nat \<Rightarrow> stmt list \<Rightarrow> RuntimeEnv \<Rightarrow> 'h state \<Rightarrow> (outcome \<times> RuntimeEnv \<times> 'h state) option"
  and while_loop ::
    "'h host \<Rightarrow> nat \<Rightarrow> expr \<Rightarrow> stmt \<Rightarrow> RuntimeEnv \<Rightarrow> 'h state \<Rightarrow> (outcome \<times> RuntimeEnv \<times> 'h state) option"
  and for_loop ::
    "'h host \<Rightarrow> nat \<Rightarrow> string \<Rightarrow> val \<Rightarrow> stmt \<Rightarrow> RuntimeEnv \<Rightarrow> 'h state \<Rightarrow>
       (outcome \<times> RuntimeEnv \<times> 'h state) option"
where
  "evaluate_expr H 0 e env s = None"
| "evaluate_expr H (Suc n) e env s =
     (case e of
        CallExpr callee args \<Rightarrow>
          (case evaluate_exprs H n args env s of
             None \<Rightarrow> None
           | Some (Inl x, s1) \<Rightarrow> Some (Inl x, s1)
           | Some (Inr argvals, s1) \<Rightarrow>
               (case evaluate_expr H n callee env s1 of
                  None \<Rightarrow> None
                | Some (Inl x, s2) \<Rightarrow> Some (Inl x, s2)
                | Some (Inr fn, s2) \<Rightarrow>
                    (case fn of
                       VProto \<Rightarrow> Some (Inl (RuntimeError (CallBeforeDefined callee)), s2)
                     | VFn name param_names body_block captured_env \<Rightarrow>
                         (case compiled H n name param_names body_block captured_env argvals s2 of
                            None \<Rightarrow> None
                          | Some (Inl m, s3) \<Rightarrow> Some (Inl (RuntimeError (ErrorCalling callee m)), s3)
                          | Some (Inr v, s3) \<Rightarrow> Some (Inr v, s3))
                     | _ \<Rightarrow>
                         if py_callable H fn (heap s2) then
                           (case py_call H fn argvals (heap s2) of
                              (Inl x, h) \<Rightarrow>
                                Some (Inl (RuntimeError (ErrorCalling callee (HostMsg x))),
                                      s2\<lparr>heap := h\<rparr>)
                            | (Inr v, h) \<Rightarrow> Some (Inr v, s2\<lparr>heap := h\<rparr>))
                         else Some (Inl (RuntimeError (NotCallable callee)), s2))))
      | SimpleLitExpr l \<Rightarrow> Some (Inr (lit_val l), s)
      | AssignmentExpr name e1 \<Rightarrow>
          (case evaluate_expr H n e1 env s of
             None \<Rightarrow> None
           | Some (Inl x, s1) \<Rightarrow> Some (Inl x, s1)
           | Some (Inr v, s1) \<Rightarrow>
               (case assign env name v s1 of
                  (Inl x, s2) \<Rightarrow> Some (Inl x, s2)
                | (Inr _, s2) \<Rightarrow> Some (Inr v, s2)))
      | AccessExpr name \<Rightarrow> Some (lookup env name s, s)
      | AttrAccessExpr obj attr_name \<Rightarrow>
          (case evaluate_expr H n obj env s of
             None \<Rightarrow> None
           | Some (Inl x, s1) \<Rightarrow> Some (Inl x, s1)
           | Some (Inr o1, s1) \<Rightarrow>
               (case py_getattr H o1 attr_name (heap s1) of
                  Inl AttributeError \<Rightarrow> Some (Inl (RuntimeError (CannotAccessAttr attr_name)), s1)
                | Inl x \<Rightarrow> Some (Inl (PyException x), s1)
                | Inr v \<Rightarrow> Some (Inr v, s1)))
      | AttrAssignmentExpr obj attr_name e1 \<Rightarrow>
          (case evaluate_expr H n obj env s of
             None \<Rightarrow> None
           | Some (Inl x, s1) \<Rightarrow> Some (Inl x, s1)
           | Some (Inr o1, s1) \<Rightarrow>
               (case evaluate_expr H n e1 env s1 of
                  None \<Rightarrow> None
                | Some (Inl x, s2) \<Rightarrow> Some (Inl x, s2)
                | Some (Inr v, s2) \<Rightarrow>
                    (case py_setattr H o1 attr_name v (heap s2) of
                       Inl AttributeError \<Rightarrow> Some (Inl (RuntimeError (CannotSetAttr attr_name)), s2)
                     | Inl x \<Rightarrow> Some (Inl (PyException x), s2)
                     | Inr h \<Rightarrow> Some (Inr v, s2\<lparr>heap := h\<rparr>))))
      | ItemAccessExpr obj key \<Rightarrow>
          (case evaluate_expr H n obj env s of
             None \<Rightarrow> None
           | Some (Inl x, s1) \<Rightarrow> Some (Inl x, s1)
           | Some (Inr o1, s1) \<Rightarrow>
               (case evaluate_expr H n key env s1 of
                  None \<Rightarrow> None
                | Some (Inl x, s2) \<Rightarrow> Some (Inl x, s2)
                | Some (Inr k, s2) \<Rightarrow>
                    (case py_getitem H o1 k (heap s2) of
                       Inl x \<Rightarrow> Some (Inl (RuntimeError CannotAccessItem), s2)
                     | Inr v \<Rightarrow> Some (Inr v, s2))))
      | ItemAssignmentExpr obj key e1 \<Rightarrow>
          (case evaluate_expr H n obj env s of
             None \<Rightarrow> None
           | Some (Inl x, s1) \<Rightarrow> Some (Inl x, s1)
           | Some (Inr o1, s1) \<Rightarrow>
               (case evaluate_expr H n key env s1 of
                  None \<Rightarrow> None
                | Some (Inl x, s2) \<Rightarrow> Some (Inl x, s2)
                | Some (Inr k, s2) \<Rightarrow>
                    (case evaluate_expr H n e1 env s2 of
                       None \<Rightarrow> None
                     | Some (Inl x, s3) \<Rightarrow> Some (Inl x, s3)
                     | Some (Inr v, s3) \<Rightarrow>
                         (case py_setitem H o1 k v (heap s3) of
                            Inl x \<Rightarrow> Some (Inl (RuntimeError CannotAssignItem), s3)
                          | Inr h \<Rightarrow> Some (Inr v, s3\<lparr>heap := h\<rparr>)))))
      | ListLitExpr values \<Rightarrow>
          (case evaluate_exprs H n values env s of
             None \<Rightarrow> None
           | Some (Inl x, s1) \<Rightarrow> Some (Inl x, s1)
           | Some (Inr vs, s1) \<Rightarrow>
               (case py_list H vs (heap s1) of (v, h) \<Rightarrow> Some (Inr v, s1\<lparr>heap := h\<rparr>)))
      | DictLitExpr entries \<Rightarrow>
          (case py_dict H (heap s) of
             (d, h) \<Rightarrow> evaluate_entries H n d entries env (s\<lparr>heap := h\<rparr>)))"
| "evaluate_exprs H 0 es env s = None"
| "evaluate_exprs H (Suc n) es env s =
     (case es of
        [] \<Rightarrow> Some (Inr [], s)
      | e # rest \<Rightarrow>
          (case evaluate_expr H n e env s of
             None \<Rightarrow> None
           | Some (Inl x, s1) \<Rightarrow> Some (Inl x, s1)
           | Some (Inr v, s1) \<Rightarrow>
               (case evaluate_exprs H n rest env s1 of
                  None \<Rightarrow> None
                | Some (Inl x, s2) \<Rightarrow> Some (Inl x, s2)
                | Some (Inr vs, s2) \<Rightarrow> Some (Inr (v # vs), s2))))"
| "evaluate_entries H 0 d entries env s = None"
| "evaluate_entries H (Suc n) d entries env s =
     (case entries of
        [] \<Rightarrow> Some (Inr d, s)
      | (k, v) # rest \<Rightarrow>
          (case evaluate_expr H n k env s of
             None \<Rightarrow> None
           | Some (Inl x, s1) \<Rightarrow> Some (Inl x, s1)
           | Some (Inr kv, s1) \<Rightarrow>
               (case evaluate_expr H n v env s1 of
                  None \<Rightarrow> None
                | Some (Inl x, s2) \<Rightarrow> Some (Inl x, s2)
                | Some (Inr vv, s2) \<Rightarrow>
                    (case py_setitem H d kv vv (heap s2) of
                       Inl x \<Rightarrow> Some (Inl (PyException x), s2)
                     | Inr h \<Rightarrow> evaluate_entries H n d rest env (s2\<lparr>heap := h\<rparr>)))))"
| "compiled H 0 name param_names body_block captured_env args s = None"
| "compiled H (Suc n) name param_names body_block captured_env args s =
     (let call_env = copy captured_env in
      if length param_names \<noteq> length args then
        Some (Inl (WrongArgCount name (length param_names) (length args)), s)
      else
        (case with_scope
                (\<lambda>env s. case declare_params env (zip param_names args) s of
                            (Inl x, env1, s1) \<Rightarrow> Some (Raise x, env1, s1)
                          | (Inr _, env1, s1) \<Rightarrow> visit_block_stmt H n body_block env1 s1)
                call_env s of
           None \<Rightarrow> None
         | Some (Return v, env', s') \<Rightarrow> Some (Inr v, s')
         | Some (Normal, env', s') \<Rightarrow> Some (Inr VNone, s')
         | Some (Raise x, env', s') \<Rightarrow> Some (Inl (exn_msg x), s')
         | Some (_, env', s') \<Rightarrow> Some (Inl SentinelMsg, s')))"
| "visit_stmt H 0 st env s = None"
| "visit_stmt H (Suc n) st env s =
     (case st of
        BlockStmt stmts \<Rightarrow> with_scope (visit_block_stmt H n st) env s
      | VarDeclStmt var_name e \<Rightarrow>
          (case evaluate_expr H n e env s of
             None \<Rightarrow> None
           | Some (Inl x, s1) \<Rightarrow> Some (Raise x, env, s1)
           | Some (Inr v, s1) \<Rightarrow>
               (case declare_var env var_name v s1 of
                  (Inl x, env', s') \<Rightarrow> Some (Raise x, env', s')
                | (Inr _, env', s') \<Rightarrow> Some (Normal, env', s')))
      | IfStmt c if_branch else_branch \<Rightarrow>
          (case evaluate_expr H n c env s of
             None \<Rightarrow> None
           | Some (Inl x, s1) \<Rightarrow> Some (Raise x, env, s1)
           | Some (Inr cond, s1) \<Rightarrow>
               with_scope
                 (\<lambda>env s. if py_bool H cond (heap s) then visit_block_stmt H n if_branch env s
                           else (case else_branch of
                                   Some b \<Rightarrow> visit_block_stmt H n b env s
                                 | None \<Rightarrow> Some (Normal, env, s)))
                 env s1)
      | ReturnStmt return_val \<Rightarrow>
          (case return_val of
             Some e \<Rightarrow>
               (case evaluate_expr H n e env s of
                  None \<Rightarrow> None
                | Some (Inl x, s1) \<Rightarrow> Some (Raise x, env, s1)
                | Some (Inr v, s1) \<Rightarrow> Some (Return v, env, s1))
           | None \<Rightarrow> Some (Return VNone, env, s))
      | WhileLoopStmt c body_block \<Rightarrow> while_loop H n c body_block env s
      | IteratorBasedForLoopStmt name e body_block \<Rightarrow>
          (case evaluate_expr H n e env s of
             None \<Rightarrow> None
           | Some (Inl x, s1) \<Rightarrow> Some (Raise x, env, s1)
           | Some (Inr iterable, s1) \<Rightarrow>
               (case py_iter H iterable (heap s1) of
                  (Inl TypeError, h) \<Rightarrow> Some (Raise (RuntimeError CannotIterate), env, s1\<lparr>heap := h\<rparr>)
                | (Inl x, h) \<Rightarrow> Some (Raise (PyException x), env, s1\<lparr>heap := h\<rparr>)
                | (Inr it, h) \<Rightarrow> for_loop H n name it body_block env (s1\<lparr>heap := h\<rparr>)))
      | BreakStmt \<Rightarrow> Some (Break, env, s)
      | ContinueStmt \<Rightarrow> Some (Continue, env, s)
      | TryStmt try_block catch_block err_var_binding_name \<Rightarrow>
          (case with_scope (visit_block_stmt H n try_block) env s of
             None \<Rightarrow> None
           | Some (Raise x, env1, s1) \<Rightarrow>
               with_scope
                 (\<lambda>env s.
                    case (case err_var_binding_name of
                            Some name \<Rightarrow> if name \<noteq> [] then push env (Str name) (VExc x) s else (env, s)
                          | None \<Rightarrow> (env, s)) of
                      (env', s') \<Rightarrow> visit_block_stmt H n catch_block env' s')
                 env1 s1
           | Some r \<Rightarrow> Some r)
      | TryStmtSwapped try_block catch_block err_var_binding_name \<Rightarrow>
          (case with_scope (visit_block_stmt H n try_block) env s of
             None \<Rightarrow> None
           | Some (Raise x, env1, s1) \<Rightarrow>
               with_scope
                 (\<lambda>env s.
                    case push env (Node err_var_binding_name) (VExc x) s of
                      (env', s') \<Rightarrow> Some (Raise (PyException AttributeError), env', s'))
                 env1 s1
           | Some r \<Rightarrow> Some r)
      | ExprStmt e \<Rightarrow>
          (case evaluate_expr H n e env s of
             None \<Rightarrow> None
           | Some (Inl x, s1) \<Rightarrow> Some (Raise x, env, s1)
           | Some (Inr v, s1) \<Rightarrow> Some (Normal, env, s1)))"
| "visit_block_stmt H 0 block env s = None"
| "visit_block_stmt H (Suc n) block env s =
     (case block of
        BlockStmt stmts \<Rightarrow> visit_stmts H n stmts env s
      | _ \<Rightarrow> Some (Raise (PyException AttributeError), env, s))"
| "visit_stmts H 0 stmts env s = None"
| "visit_stmts H (Suc n) stmts env s =
     (case stmts of
        [] \<Rightarrow> Some (Normal, env, s)
      | st # rest \<Rightarrow>
          (case visit_stmt H n st env s of
             None \<Rightarrow> None
           | Some (Normal, env1, s1) \<Rightarrow> visit_stmts H n rest env1 s1
           | Some r \<Rightarrow> Some r))"
| "while_loop H 0 c body_block env s = None"
| "while_loop H (Suc n) c body_block env s =
     (case evaluate_expr H n c env s of
        None \<Rightarrow> None
      | Some (Inl x, s1) \<Rightarrow> Some (Raise x, env, s1)
      | Some (Inr cond, s1) \<Rightarrow>
          if py_bool H cond (heap s1) then
            (case with_scope (visit_block_stmt H n body_block) env s1 of
               None \<Rightarrow> None
             | Some (Break, env1, s2) \<Rightarrow> Some (Normal, env1, s2)
             | Some (Continue, env1, s2) \<Rightarrow> while_loop H n c body_block env1 s2
             | Some (Normal, env1, s2) \<Rightarrow> while_loop H n c body_block env1 s2
             | Some r \<Rightarrow> Some r)
          else Some (Normal, env, s1))"
| "for_loop H 0 name it body_block env s = None"
| "for_loop H (Suc n) name it body_block env s =
     (case py_next H it (heap s) of
        (Inl StopIteration, h) \<Rightarrow> Some (Normal, env, s\<lparr>heap := h\<rparr>)
      | (Inl x, h) \<Rightarrow> Some (Raise (PyException x), env, s\<lparr>heap := h\<rparr>)
      | (Inr item, h) \<Rightarrow>
          (case with_scope
                  (\<lambda>env s. case push env (Str name) item s of
                              (env', s') \<Rightarrow> visit_block_stmt H n body_block env' s')
                  env (s\<lparr>heap := h\<rparr>) of
             None \<Rightarrow> None
           | Some (Break, env1, s2) \<Rightarrow> Some (Normal, env1, s2)
           | Some (Continue, env1, s2) \<Rightarrow> for_loop H n name it body_block env1 s2
           | Some (Normal, env1, s2) \<Rightarrow> for_loop H n name it body_block env1 s2
           | Some r \<Rightarrow> Some r))"

  by pat_completeness auto
termination
  by (relation "measure
      (case_sum (case_sum (case_sum (\<lambda>(H, n, _). n) (\<lambda>(H, n, _). n)) (case_sum (\<lambda>(H, n, _). n) (\<lambda>(H, n, _). n)))
       (case_sum (case_sum (\<lambda>(H, n, _). n) (\<lambda>(H, n, _). n)) (case_sum (\<lambda>(H, n, _). n) (case_sum (\<lambda>(H, n, _). n) (\<lambda>(H, n, _). n)))))")
     simp_all

declare evaluate_expr.simps [simp del] evaluate_exprs.simps [simp del]
  evaluate_entries.simps [simp del] compiled.simps [simp del] visit_stmt.simps [simp del]
  visit_block_stmt.simps [simp del] visit_stmts.simps [simp del] while_loop.simps [simp del]
  for_loop.simps [simp del]


text \<open>
  \<open>Interpreter.evaluate\<close>: the built-ins are pushed in the order of the dict, the
  function names are declared with the prototype, then the nodes are run in order. A
  \<open>Sentinel\<close> that reaches the top level becomes an \<open>InternalError\<close>.
\<close>

definition compile_fn :: "top_level_node \<Rightarrow> RuntimeEnv \<Rightarrow> val" where
  "compile_fn decl env =
     (case decl of
        FnDefinition name param_names body_block \<Rightarrow> VFn name param_names body_block (copy env)
      | Stmt st \<Rightarrow> VNone)"

fun push_built_ins :: "RuntimeEnv \<Rightarrow> (string \<times> val) list \<Rightarrow> 'h state \<Rightarrow> RuntimeEnv \<times> 'h state" where
  "push_built_ins env [] s = (env, s)"
| "push_built_ins env ((name, built_in_fn) # rest) s =
     (case push env (Str name) built_in_fn s of (env', s') \<Rightarrow> push_built_ins env' rest s')"

fun declare_prototypes ::
  "RuntimeEnv \<Rightarrow> top_level_node list \<Rightarrow> 'h state \<Rightarrow> (exn + unit) \<times> RuntimeEnv \<times> 'h state" where
  "declare_prototypes env [] s = (Inr (), env, s)"
| "declare_prototypes env (Stmt st # rest) s = declare_prototypes env rest s"
| "declare_prototypes env (FnDefinition name param_names body_block # rest) s =
     (if \<not> has env name then
        (case declare_var env name VProto s of
           (Inl x, env', s') \<Rightarrow> (Inl x, env', s')
         | (Inr _, env', s') \<Rightarrow> declare_prototypes env' rest s')
      else declare_prototypes env rest s)"

fun visit_top_level_nodes ::
  "'h host \<Rightarrow> nat \<Rightarrow> top_level_node list \<Rightarrow> RuntimeEnv \<Rightarrow> 'h state \<Rightarrow>
     (outcome \<times> RuntimeEnv \<times> 'h state) option" where
  "visit_top_level_nodes H n [] env s = Some (Normal, env, s)"
| "visit_top_level_nodes H n (Stmt st # rest) env s =
     (case visit_stmt H n st env s of
        None \<Rightarrow> None
      | Some (Normal, env', s') \<Rightarrow> visit_top_level_nodes H n rest env' s'
      | Some r \<Rightarrow> Some r)"
| "visit_top_level_nodes H n (FnDefinition name param_names body_block # rest) env s =
     (case assign env name (compile_fn (FnDefinition name param_names body_block) env) s of
        (Inl x, s') \<Rightarrow> Some (Raise x, env, s')
      | (Inr _, s') \<Rightarrow> visit_top_level_nodes H n rest env s')"

datatype result = Finished | Uncaught exn | InternalErr string

definition evaluate ::
  "'h host \<Rightarrow> nat \<Rightarrow> top_level_node list \<Rightarrow> (string \<times> val) list \<Rightarrow> 'h state \<Rightarrow>
     (result \<times> RuntimeEnv \<times> 'h state) option" where
  "evaluate H n ast built_in_fns s =
     (case push_built_ins new_env built_in_fns s of
        (env, s0) \<Rightarrow>
          (case declare_prototypes env ast s0 of
             (Inl x, env1, s1) \<Rightarrow> Some (Uncaught x, env1, s1)
           | (Inr _, env1, s1) \<Rightarrow>
               (case visit_top_level_nodes H n ast env1 s1 of
                  None \<Rightarrow> None
                | Some (Normal, env2, s2) \<Rightarrow> Some (Finished, env2, s2)
                | Some (Raise x, env2, s2) \<Rightarrow> Some (Uncaught x, env2, s2)
                | Some (_, env2, s2) \<Rightarrow>
                    Some (InternalErr ''interpreter: sentinel escaped'', env2, s2))))"

section \<open>The lowering of C-style for loops (parse/parser.py)\<close>

text \<open>
  \<open>_rewrite_continue_stmts\<close>. In its \<open>TryStmt\<close> case the source passes
  \<open>stmt.err_var_binding_name\<close> where the constructor expects \<open>catch_block\<close> and the
  rewritten catch block where it expects \<open>err_var_binding_name\<close>. A string or None is
  returned as it is by the last branch.
\<close>

fun rewrite_continue_stmts :: "stmt \<Rightarrow> expr \<Rightarrow> stmt" where
  "rewrite_continue_stmts (BlockStmt stmts) post_expr =
     BlockStmt (map (\<lambda>st. rewrite_continue_stmts st post_expr) stmts)"
| "rewrite_continue_stmts (IfStmt c if_branch else_branch) post_expr =
     IfStmt c (rewrite_continue_stmts if_branch post_expr)
       (case else_branch of
          Some b \<Rightarrow> Some (rewrite_continue_stmts b post_expr)
        | None \<Rightarrow> None)"
| "rewrite_continue_stmts (TryStmt try_block catch_block err_var_binding_name) post_expr =
     TryStmtSwapped (rewrite_continue_stmts try_block post_expr) err_var_binding_name
       (rewrite_continue_stmts catch_block post_expr)"
| "rewrite_continue_stmts (TryStmtSwapped try_block catch_block err_var_binding_name) post_expr =
     TryStmt (rewrite_continue_stmts try_block post_expr) err_var_binding_name catch_block"
| "rewrite_continue_stmts ContinueStmt post_expr = BlockStmt [ExprStmt post_expr, ContinueStmt]"
| "rewrite_continue_stmts st post_expr = st"

text \<open>
  \<open>_parse_for_loop_stmt\<close> from the point where the initializer, the condition, the
  post expression and the body's statements are parsed: an absent condition is the
  literal \<open>true\<close> (\<open>_parse_for_loop_cond_expr\<close>).
\<close>

definition parse_for_loop_stmt :: "stmt option \<Rightarrow> expr option \<Rightarrow> expr option \<Rightarrow> stmt list \<Rightarrow> stmt" where
  "parse_for_loop_stmt init_stmt cond post_expr body_stmts =
     (let cond_expr = (case cond of Some c \<Rightarrow> c | None \<Rightarrow> SimpleLitExpr (BoolLit True));
          rewritten_loop_body =
            (case post_expr of
               Some post \<Rightarrow>
                 rewrite_continue_stmts
                   (BlockStmt (if body_stmts \<noteq> [] \<and> last body_stmts \<noteq> ContinueStmt
                               then body_stmts @ [ContinueStmt] else body_stmts))
                   post
             | None \<Rightarrow> BlockStmt body_stmts)
      in BlockStmt ((case init_stmt of Some i \<Rightarrow> [i] | None \<Rightarrow> [])
                    @ [WhileLoopStmt cond_expr rewritten_loop_body]))"


section \<open>The built-ins \<open>or\<close> and \<open>and\<close> (runtime/builtins.py)\<close>

text \<open>
  \<open>_logical_or(arg0, *args)\<close> and \<open>_logical_and(arg0, *args)\<close>, applied to the list of
  all arguments; \<open>truth\<close> is Python's \<open>bool\<close>. A call with no argument is a TypeError
  of the call itself. Python evaluates the default \<open>args[-1]\<close> before it calls \<open>next\<close>,
  and on an empty tuple that is an IndexError.
\<close>

definition logical_or :: "(val \<Rightarrow> bool) \<Rightarrow> val list \<Rightarrow> host_exc + val" where
  "logical_or truth argv =
     (case argv of
        [] \<Rightarrow> Inl TypeError
      | arg0 # args \<Rightarrow>
          if truth arg0 then Inr arg0
          else if args = [] then Inl IndexError
          else (case find truth args of Some a \<Rightarrow> Inr a | None \<Rightarrow> Inr (last args)))"

definition logical_and :: "(val \<Rightarrow> bool) \<Rightarrow> val list \<Rightarrow> host_exc + val" where
  "logical_and truth argv =
     (case argv of
        [] \<Rightarrow> Inl TypeError
      | arg0 # args \<Rightarrow>
          if \<not> truth arg0 then Inr arg0
          else if args = [] then Inl IndexError
          else (case find (\<lambda>arg. \<not> truth arg) args of Some a \<Rightarrow> Inr a | None \<Rightarrow> Inr (last args)))"

definition logical_not :: "(val \<Rightarrow> bool) \<Rightarrow> val list \<Rightarrow> host_exc + val" where
  "logical_not truth argv = (case argv of [arg] \<Rightarrow> Inr (VBool (\<not> truth arg)) | _ \<Rightarrow> Inl TypeError)"


section \<open>A host for closed examples\<close>

text \<open>
  The theorems about the interpreter hold for every host. Where a closed program is
  run, it is run on this one: None, booleans, integers and strings, list objects
  and their iterators, the truth test of Python on them, and these entries of
  \<open>BUILT_IN_FNS\<close> on integers: \<open>add\<close>, \<open>sub\<close>, \<open>mul\<close>, \<open>mod\<close>, \<open>lt\<close>, \<open>le\<close>, \<open>eq\<close>,
  with \<open>not\<close>, \<open>or\<close>, \<open>and\<close>, and \<open>print\<close>, which appends its arguments to the output.
  A boolean counts as the integer 0 or 1 in arithmetic, as in Python. Whatever else a program asks of this host raises
  \<open>OtherException ''not modelled''\<close>.
\<close>

datatype pyobj = PList "val list" | PListIter nat nat

record pyheap =
  objs :: "pyobj list"
  printed :: "val list list"

definition empty_heap :: pyheap where
  "empty_heap = \<lparr>objs = [], printed = []\<rparr>"

fun as_int :: "val \<Rightarrow> int option" where
  "as_int (VInt i) = Some i"
| "as_int (VBool b) = Some (if b then 1 else 0)"
| "as_int v = None"

fun ex_bool :: "val \<Rightarrow> pyheap \<Rightarrow> bool" where
  "ex_bool VNone h = False"
| "ex_bool (VBool b) h = b"
| "ex_bool (VInt i) h = (i \<noteq> 0)"
| "ex_bool (VStr s) h = (s \<noteq> [])"
| "ex_bool (VObj r) h =
     (if r < length (objs h) then (case objs h ! r of PList vs \<Rightarrow> vs \<noteq> [] | PListIter l i \<Rightarrow> True)
      else True)"
| "ex_bool v h = True"

definition int_op :: "(int \<Rightarrow> int \<Rightarrow> val) \<Rightarrow> val list \<Rightarrow> host_exc + val" where
  "int_op f args =
     (case args of
        [a, b] \<Rightarrow>
          (case (as_int a, as_int b) of
             (Some i, Some j) \<Rightarrow> Inr (f i j)
           | _ \<Rightarrow> Inl (OtherException ''not modelled''))
      | _ \<Rightarrow> Inl TypeError)"

definition ex_call :: "val \<Rightarrow> val list \<Rightarrow> pyheap \<Rightarrow> (host_exc + val) \<times> pyheap" where
  "ex_call fn args h =
     (case fn of
        VBuiltin name \<Rightarrow>
          (if name = ''print'' then (Inr VNone, h\<lparr>printed := printed h @ [args]\<rparr>)
           else if name = ''add'' then (int_op (\<lambda>i j. VInt (i + j)) args, h)
           else if name = ''sub'' then (int_op (\<lambda>i j. VInt (i - j)) args, h)
           else if name = ''mul'' then (int_op (\<lambda>i j. VInt (i * j)) args, h)
           else if name = ''mod'' then
             (case int_op (\<lambda>i j. VInt (i mod j)) args of
                Inr v \<Rightarrow> if (case args of [a, b] \<Rightarrow> as_int b = Some 0 | _ \<Rightarrow> False)
                         then (Inl (OtherException ''ZeroDivisionError''), h) else (Inr v, h)
              | Inl x \<Rightarrow> (Inl x, h))
           else if name = ''lt'' then (int_op (\<lambda>i j. VBool (i < j)) args, h)
           else if name = ''le'' then (int_op (\<lambda>i j. VBool (i \<le> j)) args, h)
           else if name = ''eq'' then (int_op (\<lambda>i j. VBool (i = j)) args, h)
           else if name = ''not'' then (logical_not (\<lambda>v. ex_bool v h) args, h)
           else if name = ''or'' then (logical_or (\<lambda>v. ex_bool v h) args, h)
           else if name = ''and'' then (logical_and (\<lambda>v. ex_bool v h) args, h)
           else (Inl (OtherException ''not modelled''), h))
      | _ \<Rightarrow> (Inl TypeError, h))"

definition ex_list :: "val list \<Rightarrow> pyheap \<Rightarrow> val \<times> pyheap" where
  "ex_list vs h = (VObj (length (objs h)), h\<lparr>objs := objs h @ [PList vs]\<rparr>)"

definition ex_iter :: "val \<Rightarrow> pyheap \<Rightarrow> (host_exc + val) \<times> pyheap" where
  "ex_iter v h =
     (case v of
        VObj r \<Rightarrow>
          (if r < length (objs h) then
             (case objs h ! r of
                PList vs \<Rightarrow> (Inr (VObj (length (objs h))), h\<lparr>objs := objs h @ [PListIter r 0]\<rparr>)
              | PListIter l i \<Rightarrow> (Inr v, h))
           else (Inl (OtherException ''not modelled''), h))
      | VStr s \<Rightarrow> (Inl (OtherException ''not modelled''), h)
      | _ \<Rightarrow> (Inl TypeError, h))"

definition ex_next :: "val \<Rightarrow> pyheap \<Rightarrow> (host_exc + val) \<times> pyheap" where
  "ex_next v h =
     (case v of
        VObj r \<Rightarrow>
          (if r < length (objs h) then
             (case objs h ! r of
                PListIter l i \<Rightarrow>
                  (case (if l < length (objs h) then objs h ! l else PList []) of
                     PList vs \<Rightarrow>
                       if i < length vs then (Inr (vs ! i), h\<lparr>objs := (objs h)[r := PListIter l (Suc i)]\<rparr>)
                       else (Inl StopIteration, h)
                   | _ \<Rightarrow> (Inl StopIteration, h))
              | PList vs \<Rightarrow> (Inl TypeError, h))
           else (Inl TypeError, h))
      | _ \<Rightarrow> (Inl TypeError, h))"

definition example_host :: "pyheap host" where
  "example_host =
     \<lparr>py_bool = ex_bool,
      py_callable = (\<lambda>v h. case v of VBuiltin name \<Rightarrow> True | _ \<Rightarrow> False),
      py_call = ex_call,
      py_getattr = (\<lambda>v name h. Inl (OtherException ''not modelled'')),
      py_setattr = (\<lambda>v name x h. Inl (OtherException ''not modelled'')),
      py_getitem = (\<lambda>v k h. Inl (OtherException ''not modelled'')),
      py_setitem = (\<lambda>v k x h. Inl (OtherException ''not modelled'')),
      py_list = ex_list,
      py_dict = (\<lambda>h. ex_list [] h),
      py_iter = ex_iter,
      py_next = ex_next\<rparr>"

definition example_built_ins :: "(string \<times> val) list" where
  "example_built_ins =
     map (\<lambda>name. (name, VBuiltin name))
       [''print'', ''lt'', ''le'', ''eq'', ''add'', ''sub'', ''mul'', ''mod'', ''not'', ''or'', ''and'']"

definition start :: "pyheap state" where
  "start = \<lparr>cells = [], heap = empty_heap\<rparr>"


section \<open>Claims about the built-ins\<close>

lemma logical_or_two_or_more:
  "logical_or truth (a # b # cs) =
     Inr (case find truth (a # b # cs) of Some x \<Rightarrow> x | None \<Rightarrow> last (a # b # cs))"
  by (simp add: logical_or_def split: option.splits)

lemma logical_and_two_or_more:
  "logical_and truth (a # b # cs) =
     Inr (case find (\<lambda>x. \<not> truth x) (a # b # cs) of Some x \<Rightarrow> x | None \<Rightarrow> last (a # b # cs))"
  by (simp add: logical_and_def split: option.splits)

text \<open>
  Claim C7: a call of \<open>or\<close> with one or more arguments returns the first truthy argument
  if there is one and the last argument otherwise; \<open>and\<close> returns the first falsy
  argument if there is one and the last argument otherwise. With two or more arguments
  the code does so (the two lemmas above). With one argument it does not: \<open>or(0)\<close> and
  \<open>and(1)\<close> raise IndexError, where the claim gives 0 and 1.
\<close>

theorem logical_or_and_single_argument:
  "logical_or (\<lambda>v. ex_bool v empty_heap) [VInt 0] = Inl IndexError \<and>
   logical_and (\<lambda>v. ex_bool v empty_heap) [VInt 1] = Inl IndexError \<and>
   logical_or (\<lambda>v. ex_bool v empty_heap) [VInt 1] = Inr (VInt 1) \<and>
   logical_and (\<lambda>v. ex_bool v empty_heap) [VInt 0] = Inr (VInt 0)"
  by (simp add: logical_or_def logical_and_def)

text \<open>Through the interpreter, the IndexError is the runtime error "error calling or".\<close>

lemma or_single_argument_program:
  "map_option (\<lambda>(r, env, s). r)
     (evaluate example_host 10
        [Stmt (ExprStmt (CallExpr (AccessExpr ''or'') [SimpleLitExpr (IntLit 0)]))]
        example_built_ins start) =
   Some (Uncaught (RuntimeError (ErrorCalling (AccessExpr ''or'') (HostMsg IndexError))))"
  by code_simp


section \<open>Assignment, declaration and scopes\<close>

lemma fold_assign_length:
  "length (fold (\<lambda>var cs. if fst var = Str name then cs[snd var := v] else cs) vars cs) = length cs"
  by (induction vars arbitrary: cs) auto

lemma fold_assign_nth:
  "a < length cs \<Longrightarrow>
   fold (\<lambda>var cs. if fst var = Str name then cs[snd var := v] else cs) vars cs ! a =
     (if (Str name, a) \<in> set vars then v else cs ! a)"
proof (induction vars arbitrary: cs)
  case Nil
  then show ?case by simp
next
  case (Cons var vars)
  obtain nm b where var: "var = (nm, b)" by (cases var)
  show ?case
  proof (cases "nm = Str name")
    case True
    with Cons.prems Cons.IH [of "cs[b := v]"] var show ?thesis
      by (auto simp: nth_list_update)
  next
    case False
    with Cons.prems Cons.IH [of cs] var show ?thesis by auto
  qed
qed

lemma assign_cells_length [simp]: "length (assign_cells vars name v cs) = length cs"
  by (simp add: assign_cells_def fold_assign_length)

lemma assign_cells_nth:
  "a < length cs \<Longrightarrow>
   assign_cells vars name v cs ! a = (if (Str name, a) \<in> set vars then v else cs ! a)"
  by (simp add: assign_cells_def fold_assign_nth)

lemma has_iff: "has env name \<longleftrightarrow> (\<exists>a. (Str name, a) \<in> set (stack env))"
  by (force simp: has_def)


section \<open>The evaluator, one node at a time\<close>

lemma evaluate_expr_SimpleLitExpr:
  "evaluate_expr H (Suc n) (SimpleLitExpr l) env s = Some (Inr (lit_val l), s)"
  by (subst evaluate_expr.simps(2)) simp

lemma evaluate_expr_AccessExpr:
  "evaluate_expr H (Suc n) (AccessExpr name) env s = Some (lookup env name s, s)"
  by (subst evaluate_expr.simps(2)) simp

lemma evaluate_expr_AssignmentExpr:
  "evaluate_expr H (Suc n) (AssignmentExpr name e) env s =
     (case evaluate_expr H n e env s of
        None \<Rightarrow> None
      | Some (Inl x, s1) \<Rightarrow> Some (Inl x, s1)
      | Some (Inr v, s1) \<Rightarrow>
          (case assign env name v s1 of
             (Inl x, s2) \<Rightarrow> Some (Inl x, s2)
           | (Inr _, s2) \<Rightarrow> Some (Inr v, s2)))"
  by (subst evaluate_expr.simps(2)) simp

lemma visit_stmt_BlockStmt:
  "visit_stmt H (Suc n) (BlockStmt stmts) env s =
     with_scope (visit_block_stmt H n (BlockStmt stmts)) env s"
  by (subst visit_stmt.simps(2)) simp

lemma visit_stmt_VarDeclStmt:
  "visit_stmt H (Suc n) (VarDeclStmt var_name e) env s =
     (case evaluate_expr H n e env s of
        None \<Rightarrow> None
      | Some (Inl x, s1) \<Rightarrow> Some (Raise x, env, s1)
      | Some (Inr v, s1) \<Rightarrow>
          (case declare_var env var_name v s1 of
             (Inl x, env', s') \<Rightarrow> Some (Raise x, env', s')
           | (Inr _, env', s') \<Rightarrow> Some (Normal, env', s')))"
  by (subst visit_stmt.simps(2)) simp

lemma visit_stmt_IfStmt:
  "visit_stmt H (Suc n) (IfStmt c if_branch else_branch) env s =
     (case evaluate_expr H n c env s of
        None \<Rightarrow> None
      | Some (Inl x, s1) \<Rightarrow> Some (Raise x, env, s1)
      | Some (Inr cond, s1) \<Rightarrow>
          with_scope
            (\<lambda>env s. if py_bool H cond (heap s) then visit_block_stmt H n if_branch env s
                      else (case else_branch of
                              Some b \<Rightarrow> visit_block_stmt H n b env s
                            | None \<Rightarrow> Some (Normal, env, s)))
            env s1)"
  by (subst visit_stmt.simps(2)) simp

lemma visit_stmt_ReturnStmt:
  "visit_stmt H (Suc n) (ReturnStmt return_val) env s =
     (case return_val of
        Some e \<Rightarrow>
          (case evaluate_expr H n e env s of
             None \<Rightarrow> None
           | Some (Inl x, s1) \<Rightarrow> Some (Raise x, env, s1)
           | Some (Inr v, s1) \<Rightarrow> Some (Return v, env, s1))
      | None \<Rightarrow> Some (Return VNone, env, s))"
  by (subst visit_stmt.simps(2)) simp

lemma visit_stmt_WhileLoopStmt:
  "visit_stmt H (Suc n) (WhileLoopStmt c body_block) env s = while_loop H n c body_block env s"
  by (subst visit_stmt.simps(2)) simp

lemma visit_stmt_IteratorBasedForLoopStmt:
  "visit_stmt H (Suc n) (IteratorBasedForLoopStmt name e body_block) env s =
     (case evaluate_expr H n e env s of
        None \<Rightarrow> None
      | Some (Inl x, s1) \<Rightarrow> Some (Raise x, env, s1)
      | Some (Inr iterable, s1) \<Rightarrow>
          (case py_iter H iterable (heap s1) of
             (Inl TypeError, h) \<Rightarrow> Some (Raise (RuntimeError CannotIterate), env, s1\<lparr>heap := h\<rparr>)
           | (Inl x, h) \<Rightarrow> Some (Raise (PyException x), env, s1\<lparr>heap := h\<rparr>)
           | (Inr it, h) \<Rightarrow> for_loop H n name it body_block env (s1\<lparr>heap := h\<rparr>)))"
  by (subst visit_stmt.simps(2)) simp

lemma visit_stmt_BreakStmt: "visit_stmt H (Suc n) BreakStmt env s = Some (Break, env, s)"
  by (subst visit_stmt.simps(2)) simp

lemma visit_stmt_ContinueStmt: "visit_stmt H (Suc n) ContinueStmt env s = Some (Continue, env, s)"
  by (subst visit_stmt.simps(2)) simp

lemma visit_stmt_TryStmt:
  "visit_stmt H (Suc n) (TryStmt try_block catch_block err_var_binding_name) env s =
     (case with_scope (visit_block_stmt H n try_block) env s of
        None \<Rightarrow> None
      | Some (Raise x, env1, s1) \<Rightarrow>
          with_scope
            (\<lambda>env s.
               case (case err_var_binding_name of
                       Some name \<Rightarrow> if name \<noteq> [] then push env (Str name) (VExc x) s else (env, s)
                     | None \<Rightarrow> (env, s)) of
                 (env', s') \<Rightarrow> visit_block_stmt H n catch_block env' s')
            env1 s1
      | Some r \<Rightarrow> Some r)"
  by (subst visit_stmt.simps(2)) simp

lemma visit_stmt_TryStmtSwapped:
  "visit_stmt H (Suc n) (TryStmtSwapped try_block catch_block err_var_binding_name) env s =
     (case with_scope (visit_block_stmt H n try_block) env s of
        None \<Rightarrow> None
      | Some (Raise x, env1, s1) \<Rightarrow>
          with_scope
            (\<lambda>env s.
               case push env (Node err_var_binding_name) (VExc x) s of
                 (env', s') \<Rightarrow> Some (Raise (PyException AttributeError), env', s'))
            env1 s1
      | Some r \<Rightarrow> Some r)"
  by (subst visit_stmt.simps(2)) simp

lemma visit_stmt_ExprStmt:
  "visit_stmt H (Suc n) (ExprStmt e) env s =
     (case evaluate_expr H n e env s of
        None \<Rightarrow> None
      | Some (Inl x, s1) \<Rightarrow> Some (Raise x, env, s1)
      | Some (Inr v, s1) \<Rightarrow> Some (Normal, env, s1))"
  by (subst visit_stmt.simps(2)) simp

lemma visit_block_stmt_BlockStmt:
  "visit_block_stmt H (Suc n) (BlockStmt stmts) env s = visit_stmts H n stmts env s"
  by (subst visit_block_stmt.simps(2)) simp

lemma visit_block_stmt_not_block:
  assumes "\<forall>stmts. block \<noteq> BlockStmt stmts"
  shows "visit_block_stmt H (Suc n) block env s = Some (Raise (PyException AttributeError), env, s)"
  using assms by (subst visit_block_stmt.simps(2)) (cases block; simp)

lemma visit_stmts_Nil: "visit_stmts H (Suc n) [] env s = Some (Normal, env, s)"
  by (subst visit_stmts.simps(2)) simp

lemma visit_stmts_Cons:
  "visit_stmts H (Suc n) (st # rest) env s =
     (case visit_stmt H n st env s of
        None \<Rightarrow> None
      | Some (Normal, env1, s1) \<Rightarrow> visit_stmts H n rest env1 s1
      | Some r \<Rightarrow> Some r)"
  by (subst visit_stmts.simps(2)) simp

lemma compiled_no_params:
  "compiled H (Suc n) name [] body_block captured_env [] s =
     (case with_scope (visit_block_stmt H n body_block) (copy captured_env) s of
        None \<Rightarrow> None
      | Some (Return v, env', s') \<Rightarrow> Some (Inr v, s')
      | Some (Normal, env', s') \<Rightarrow> Some (Inr VNone, s')
      | Some (Raise x, env', s') \<Rightarrow> Some (Inl (exn_msg x), s')
      | Some (_, env', s') \<Rightarrow> Some (Inl SentinelMsg, s'))"
  by (subst compiled.simps(2)) (simp add: Let_def)

lemma scope_exit_entry [simp]: "scope_exit out (scope_entry env) = (out, env)"
  by (simp add: scope_exit_def scope_entry_def Let_def)

lemma stack_scope_entry [simp]: "stack (scope_entry env) = stack env"
  by (simp add: scope_entry_def)

lemma stack_copy [simp]: "stack (copy env) = stack env"
  by (simp add: copy_def)

lemma lookup_same_stack: "stack env' = stack env \<Longrightarrow> lookup env' name s = lookup env name s"
  by (simp add: lookup_def)

text \<open>
  A body that ends with the environment it was given, as an expression statement, a
  \<open>return\<close>, \<open>break\<close> or \<open>continue\<close> does.
\<close>

lemma with_scope_same_env:
  "body (scope_entry env) s = Some (out, scope_entry env, s1) \<Longrightarrow>
   with_scope body env s = Some (out, env, s1)"
  by (simp add: with_scope_def)


lemma while_loop_Suc:
  "while_loop H (Suc n) c body_block env s =
     (case evaluate_expr H n c env s of
        None \<Rightarrow> None
      | Some (Inl x, s1) \<Rightarrow> Some (Raise x, env, s1)
      | Some (Inr cond, s1) \<Rightarrow>
          if py_bool H cond (heap s1) then
            (case with_scope (visit_block_stmt H n body_block) env s1 of
               None \<Rightarrow> None
             | Some (Break, env1, s2) \<Rightarrow> Some (Normal, env1, s2)
             | Some (Continue, env1, s2) \<Rightarrow> while_loop H n c body_block env1 s2
             | Some (Normal, env1, s2) \<Rightarrow> while_loop H n c body_block env1 s2
             | Some r \<Rightarrow> Some r)
          else Some (Normal, env, s1))"
  by (subst while_loop.simps(2)) simp

lemma for_loop_Suc:
  "for_loop H (Suc n) name it body_block env s =
     (case py_next H it (heap s) of
        (Inl StopIteration, h) \<Rightarrow> Some (Normal, env, s\<lparr>heap := h\<rparr>)
      | (Inl x, h) \<Rightarrow> Some (Raise (PyException x), env, s\<lparr>heap := h\<rparr>)
      | (Inr item, h) \<Rightarrow>
          (case with_scope
                  (\<lambda>env s. case push env (Str name) item s of
                              (env', s') \<Rightarrow> visit_block_stmt H n body_block env' s')
                  env (s\<lparr>heap := h\<rparr>) of
             None \<Rightarrow> None
           | Some (Break, env1, s2) \<Rightarrow> Some (Normal, env1, s2)
           | Some (Continue, env1, s2) \<Rightarrow> for_loop H n name it body_block env1 s2
           | Some (Normal, env1, s2) \<Rightarrow> for_loop H n name it body_block env1 s2
           | Some r \<Rightarrow> Some r))"
  by (subst for_loop.simps(2)) simp


text \<open>
  Claim C5: an assignment expression \<open>name = e\<close> first evaluates \<open>e\<close>, then updates every
  binding of the stack whose name matches, not only the innermost one; with no such
  binding it raises a runtime error; its result is the assigned value.
\<close>

theorem evaluate_assignment_expr_updates_every_binding:
  "(\<forall>x s1. evaluate_expr H n e env s = Some (Inl x, s1) \<longrightarrow>
      evaluate_expr H (Suc n) (AssignmentExpr name e) env s = Some (Inl x, s1)) \<and>
   (\<forall>v s1. evaluate_expr H n e env s = Some (Inr v, s1) \<longrightarrow>
      (\<exists>s2. evaluate_expr H (Suc n) (AssignmentExpr name e) env s =
               Some (if \<exists>a. (Str name, a) \<in> set (stack env) then Inr v
                     else Inl (RuntimeError (CannotAssignUndeclared name)), s2) \<and>
             heap s2 = heap s1 \<and> length (cells s2) = length (cells s1) \<and>
             (\<forall>a < length (cells s1).
                cells s2 ! a = (if (Str name, a) \<in> set (stack env) then v else cells s1 ! a))))"
  by (auto simp: evaluate_expr.simps(2) [of H n "AssignmentExpr name e"] assign_def Let_def has_iff
                 assign_cells_nth)

definition env_xyx :: RuntimeEnv where
  "env_xyx = \<lparr>stack = [(Str ''x'', 0), (Str ''y'', 1), (Str ''x'', 2)], stack_offsets = [2],
             decl_variables_in_scope = [{''x'', ''y''}, {''x''}]\<rparr>"

definition state_xyx :: "pyheap state" where
  "state_xyx = \<lparr>cells = [VInt 1, VInt 2, VInt 3], heap = empty_heap\<rparr>"

theorem evaluate_assignment_expr_witness:
  "evaluate_expr example_host 1 (SimpleLitExpr (IntLit 5)) env_xyx state_xyx =
     Some (Inr (VInt 5), state_xyx) \<and>
   (\<exists>s2. evaluate_expr example_host 2 (AssignmentExpr ''x'' (SimpleLitExpr (IntLit 5))) env_xyx state_xyx =
            Some (Inr (VInt 5), s2) \<and>
          cells s2 ! 0 = VInt 5 \<and> cells s2 ! 1 = VInt 2 \<and> cells s2 ! 2 = VInt 5) \<and>
   evaluate_expr example_host 2 (AssignmentExpr ''z'' (SimpleLitExpr (IntLit 5))) env_xyx state_xyx =
     Some (Inl (RuntimeError (CannotAssignUndeclared ''z'')), state_xyx)"
proof -
  have e: "evaluate_expr example_host 1 (SimpleLitExpr (IntLit 5)) env_xyx state_xyx =
     Some (Inr (VInt 5), state_xyx)"
    by code_simp
  have z: "evaluate_expr example_host 2 (AssignmentExpr ''z'' (SimpleLitExpr (IntLit 5))) env_xyx state_xyx =
     Some (Inl (RuntimeError (CannotAssignUndeclared ''z'')), state_xyx)"
    by code_simp
  from evaluate_assignment_expr_updates_every_binding
         [of example_host 1 "SimpleLitExpr (IntLit 5)" env_xyx state_xyx "''x''"] e
  obtain s2 where
    r: "evaluate_expr example_host (Suc 1) (AssignmentExpr ''x'' (SimpleLitExpr (IntLit 5)))
          env_xyx state_xyx =
        Some (if \<exists>a. (Str ''x'', a) \<in> set (stack env_xyx) then Inr (VInt 5)
              else Inl (RuntimeError (CannotAssignUndeclared ''x'')), s2)"
    and c: "\<forall>a < length (cells state_xyx).
              cells s2 ! a = (if (Str ''x'', a) \<in> set (stack env_xyx) then VInt 5
                              else cells state_xyx ! a)"
    by blast
  have "\<exists>a. (Str ''x'', a) \<in> set (stack env_xyx)"
    by (rule exI [of _ 0]) (simp add: env_xyx_def)
  with r have r': "evaluate_expr example_host 2 (AssignmentExpr ''x'' (SimpleLitExpr (IntLit 5)))
          env_xyx state_xyx = Some (Inr (VInt 5), s2)"
    by (simp add: numeral_2_eq_2)
  from c [rule_format, of 0] c [rule_format, of 1] c [rule_format, of 2]
  have "cells s2 ! 0 = VInt 5 \<and> cells s2 ! 1 = VInt 2 \<and> cells s2 ! 2 = VInt 5"
    by (simp add: env_xyx_def state_xyx_def)
  with e z r' show ?thesis by blast
qed


text \<open>
  Claim C6: for every call expression, the evaluator evaluates the callee first and then
  the arguments left to right. \<open>callee_then_args\<close> is that order, in the words of the
  specification, up to the point where the callee's value and the arguments' values are
  known; \<open>args_then_callee\<close> is the order of \<open>_evaluate_call_expr\<close>, which builds the
  list of argument values before it evaluates \<open>call.callee\<close>.
\<close>

definition callee_then_args ::
  "'h host \<Rightarrow> nat \<Rightarrow> expr \<Rightarrow> expr list \<Rightarrow> RuntimeEnv \<Rightarrow> 'h state \<Rightarrow>
     ((exn + val \<times> val list) \<times> 'h state) option" where
  "callee_then_args H n callee args env s =
     (case evaluate_expr H n callee env s of
        None \<Rightarrow> None
      | Some (Inl x, s1) \<Rightarrow> Some (Inl x, s1)
      | Some (Inr fn, s1) \<Rightarrow>
          (case evaluate_exprs H n args env s1 of
             None \<Rightarrow> None
           | Some (Inl x, s2) \<Rightarrow> Some (Inl x, s2)
           | Some (Inr argvals, s2) \<Rightarrow> Some (Inr (fn, argvals), s2)))"

definition args_then_callee ::
  "'h host \<Rightarrow> nat \<Rightarrow> expr \<Rightarrow> expr list \<Rightarrow> RuntimeEnv \<Rightarrow> 'h state \<Rightarrow>
     ((exn + val \<times> val list) \<times> 'h state) option" where
  "args_then_callee H n callee args env s =
     (case evaluate_exprs H n args env s of
        None \<Rightarrow> None
      | Some (Inl x, s1) \<Rightarrow> Some (Inl x, s1)
      | Some (Inr argvals, s1) \<Rightarrow>
          (case evaluate_expr H n callee env s1 of
             None \<Rightarrow> None
           | Some (Inl x, s2) \<Rightarrow> Some (Inl x, s2)
           | Some (Inr fn, s2) \<Rightarrow> Some (Inr (fn, argvals), s2)))"

definition env_x :: RuntimeEnv where
  "env_x = \<lparr>stack = [(Str ''x'', 0)], stack_offsets = [], decl_variables_in_scope = [{''x''}]\<rparr>"

definition state_x :: "pyheap state" where
  "state_x = \<lparr>cells = [VInt 0], heap = empty_heap\<rparr>"

text \<open>
  The call \<open>nofn(x = 5)\<close>, where \<open>x\<close> is 0 and \<open>nofn\<close> is not defined: callee first, the
  lookup of \<open>nofn\<close> fails while \<open>x\<close> is still 0; the code has assigned 5 to \<open>x\<close> when the
  lookup fails.
\<close>

theorem call_evaluates_arguments_before_callee:
  "callee_then_args example_host 3 (AccessExpr ''nofn'')
     [AssignmentExpr ''x'' (SimpleLitExpr (IntLit 5))] env_x state_x =
     Some (Inl (RuntimeError (UndefinedVariable ''nofn'')), state_x) \<and>
   evaluate_expr example_host 4
     (CallExpr (AccessExpr ''nofn'') [AssignmentExpr ''x'' (SimpleLitExpr (IntLit 5))]) env_x state_x =
     Some (Inl (RuntimeError (UndefinedVariable ''nofn'')), state_x\<lparr>cells := [VInt 5]\<rparr>)"
  by code_simp

text \<open>
  Claim C6 as amended: the evaluator evaluates the arguments left to right, each in the
  state its predecessor left, and then the callee, in the state the last argument left;
  an exception of an argument ends the call before the callee is evaluated.
  \<open>call_value\<close> is what \<open>_evaluate_call_expr\<close> does once both are known.
\<close>

definition call_value ::
  "'h host \<Rightarrow> nat \<Rightarrow> expr \<Rightarrow> val \<Rightarrow> val list \<Rightarrow> 'h state \<Rightarrow> ((exn + val) \<times> 'h state) option" where
  "call_value H n callee fn argvals s2 =
     (case fn of
        VProto \<Rightarrow> Some (Inl (RuntimeError (CallBeforeDefined callee)), s2)
      | VFn name param_names body_block captured_env \<Rightarrow>
          (case compiled H n name param_names body_block captured_env argvals s2 of
             None \<Rightarrow> None
           | Some (Inl m, s3) \<Rightarrow> Some (Inl (RuntimeError (ErrorCalling callee m)), s3)
           | Some (Inr v, s3) \<Rightarrow> Some (Inr v, s3))
      | _ \<Rightarrow>
          if py_callable H fn (heap s2) then
            (case py_call H fn argvals (heap s2) of
               (Inl x, h) \<Rightarrow>
                 Some (Inl (RuntimeError (ErrorCalling callee (HostMsg x))), s2\<lparr>heap := h\<rparr>)
             | (Inr v, h) \<Rightarrow> Some (Inr v, s2\<lparr>heap := h\<rparr>))
          else Some (Inl (RuntimeError (NotCallable callee)), s2))"

lemma evaluate_expr_CallExpr:
  "evaluate_expr H (Suc n) (CallExpr callee args) env s =
     (case evaluate_exprs H n args env s of
        None \<Rightarrow> None
      | Some (Inl x, s1) \<Rightarrow> Some (Inl x, s1)
      | Some (Inr argvals, s1) \<Rightarrow>
          (case evaluate_expr H n callee env s1 of
             None \<Rightarrow> None
           | Some (Inl x, s2) \<Rightarrow> Some (Inl x, s2)
           | Some (Inr fn, s2) \<Rightarrow> call_value H n callee fn argvals s2))"
  unfolding call_value_def by (subst evaluate_expr.simps(2)) simp

lemma evaluate_exprs_Cons:
  "evaluate_exprs H (Suc n) (e # es) env s =
     (case evaluate_expr H n e env s of
        None \<Rightarrow> None
      | Some (Inl x, s1) \<Rightarrow> Some (Inl x, s1)
      | Some (Inr v, s1) \<Rightarrow>
          (case evaluate_exprs H n es env s1 of
             None \<Rightarrow> None
           | Some (Inl x, s2) \<Rightarrow> Some (Inl x, s2)
           | Some (Inr vs, s2) \<Rightarrow> Some (Inr (v # vs), s2)))"
  by (subst evaluate_exprs.simps(2)) simp

theorem call_expr_order:
  "(\<forall>x s1. evaluate_exprs H n args env s = Some (Inl x, s1) \<longrightarrow>
      evaluate_expr H (Suc n) (CallExpr callee args) env s = Some (Inl x, s1)) \<and>
   (\<forall>argvals s1 x s2.
      evaluate_exprs H n args env s = Some (Inr argvals, s1) \<and>
      evaluate_expr H n callee env s1 = Some (Inl x, s2) \<longrightarrow>
      evaluate_expr H (Suc n) (CallExpr callee args) env s = Some (Inl x, s2)) \<and>
   (\<forall>argvals s1 fn s2.
      evaluate_exprs H n args env s = Some (Inr argvals, s1) \<and>
      evaluate_expr H n callee env s1 = Some (Inr fn, s2) \<longrightarrow>
      evaluate_expr H (Suc n) (CallExpr callee args) env s = call_value H n callee fn argvals s2) \<and>
   (\<forall>e es x s1. args = e # es \<and> evaluate_expr H n e env s = Some (Inl x, s1) \<longrightarrow>
      evaluate_exprs H (Suc n) args env s = Some (Inl x, s1)) \<and>
   (\<forall>e es v s1. args = e # es \<and> evaluate_expr H n e env s = Some (Inr v, s1) \<longrightarrow>
      evaluate_exprs H (Suc n) args env s =
        (case evaluate_exprs H n es env s1 of
           None \<Rightarrow> None
         | Some (Inl x, s2) \<Rightarrow> Some (Inl x, s2)
         | Some (Inr vs, s2) \<Rightarrow> Some (Inr (v # vs), s2)))"
proof (intro conjI allI impI)
  fix x s1
  assume "evaluate_exprs H n args env s = Some (Inl x, s1)"
  then show "evaluate_expr H (Suc n) (CallExpr callee args) env s = Some (Inl x, s1)"
    by (simp add: evaluate_expr_CallExpr)
next
  fix argvals s1 x s2
  assume "evaluate_exprs H n args env s = Some (Inr argvals, s1) \<and>
          evaluate_expr H n callee env s1 = Some (Inl x, s2)"
  then show "evaluate_expr H (Suc n) (CallExpr callee args) env s = Some (Inl x, s2)"
    by (simp add: evaluate_expr_CallExpr)
next
  fix argvals s1 fn s2
  assume "evaluate_exprs H n args env s = Some (Inr argvals, s1) \<and>
          evaluate_expr H n callee env s1 = Some (Inr fn, s2)"
  then show "evaluate_expr H (Suc n) (CallExpr callee args) env s =
             call_value H n callee fn argvals s2"
    by (simp add: evaluate_expr_CallExpr)
next
  fix e es x s1
  assume "args = e # es \<and> evaluate_expr H n e env s = Some (Inl x, s1)"
  then show "evaluate_exprs H (Suc n) args env s = Some (Inl x, s1)"
    by (simp add: evaluate_exprs_Cons)
next
  fix e es v s1
  assume "args = e # es \<and> evaluate_expr H n e env s = Some (Inr v, s1)"
  then show "evaluate_exprs H (Suc n) args env s =
        (case evaluate_exprs H n es env s1 of
           None \<Rightarrow> None
         | Some (Inl x, s2) \<Rightarrow> Some (Inl x, s2)
         | Some (Inr vs, s2) \<Rightarrow> Some (Inr (v # vs), s2))"
    by (simp add: evaluate_exprs_Cons)
qed

theorem call_expr_order_witness:
  "evaluate_exprs example_host 3 [AssignmentExpr ''x'' (SimpleLitExpr (IntLit 5))] env_x state_x =
     Some (Inr [VInt 5], state_x\<lparr>cells := [VInt 5]\<rparr>) \<and>
   evaluate_expr example_host 3 (AccessExpr ''nofn'') env_x (state_x\<lparr>cells := [VInt 5]\<rparr>) =
     Some (Inl (RuntimeError (UndefinedVariable ''nofn'')), state_x\<lparr>cells := [VInt 5]\<rparr>) \<and>
   evaluate_expr example_host (Suc 3)
     (CallExpr (AccessExpr ''nofn'') [AssignmentExpr ''x'' (SimpleLitExpr (IntLit 5))]) env_x state_x =
     Some (Inl (RuntimeError (UndefinedVariable ''nofn'')), state_x\<lparr>cells := [VInt 5]\<rparr>)"
proof -
  have a: "evaluate_exprs example_host 3 [AssignmentExpr ''x'' (SimpleLitExpr (IntLit 5))]
             env_x state_x = Some (Inr [VInt 5], state_x\<lparr>cells := [VInt 5]\<rparr>)"
    by code_simp
  have c: "evaluate_expr example_host 3 (AccessExpr ''nofn'') env_x (state_x\<lparr>cells := [VInt 5]\<rparr>) =
             Some (Inl (RuntimeError (UndefinedVariable ''nofn'')), state_x\<lparr>cells := [VInt 5]\<rparr>)"
    by code_simp
  note order = call_expr_order [of example_host 3 "[AssignmentExpr ''x'' (SimpleLitExpr (IntLit 5))]"
         env_x state_x "AccessExpr ''nofn''"]
  have "evaluate_expr example_host (Suc 3)
     (CallExpr (AccessExpr ''nofn'') [AssignmentExpr ''x'' (SimpleLitExpr (IntLit 5))]) env_x state_x =
     Some (Inl (RuntimeError (UndefinedVariable ''nofn'')), state_x\<lparr>cells := [VInt 5]\<rparr>)"
    by (rule order [THEN conjunct2, THEN conjunct1, rule_format, OF conjI [OF a c]])
  with a c show ?thesis by (intro conjI)
qed


text \<open>
  Claim C10: a for-each loop binds its variable with \<open>push\<close>, which adds it to the
  binding stack and not to the declared names of the scope; so a \<open>let\<close> of the same name
  directly in the body raises no redeclaration error and makes a second binding, which
  shadows the first for the rest of the iteration. The first lemma is the start of an
  iteration of \<open>_visit_iterator_based_for_loop_stmt\<close>; in the theorem, \<open>env2\<close> and
  \<open>s2\<close> are the environment and the state in which the body starts.
\<close>

lemma for_loop_iteration:
  assumes "py_next H it (heap s) = (Inr item, h)"
  shows "for_loop H (Suc n) name it body_block env s =
     (case with_scope
             (\<lambda>env s. case push env (Str name) item s of
                         (env', s') \<Rightarrow> visit_block_stmt H n body_block env' s')
             env (s\<lparr>heap := h\<rparr>) of
        None \<Rightarrow> None
      | Some (Break, env1, s2) \<Rightarrow> Some (Normal, env1, s2)
      | Some (Continue, env1, s2) \<Rightarrow> for_loop H n name it body_block env1 s2
      | Some (Normal, env1, s2) \<Rightarrow> for_loop H n name it body_block env1 s2
      | Some r \<Rightarrow> Some r)"
  using assms by (subst for_loop.simps(2)) simp

theorem for_each_variable_is_pushed_not_declared:
  assumes "push (scope_entry env) (Str name) item s = (env2, s2)"
  shows "last (decl_variables_in_scope env2) = {} \<and>
     stack env2 = stack env @ [(Str name, length (cells s))] \<and>
     (\<forall>e v s3. evaluate_expr H n e env2 s2 = Some (Inr v, s3) \<longrightarrow>
        (\<exists>env3 s4.
           visit_stmt H (Suc n) (VarDeclStmt name e) env2 s2 = Some (Normal, env3, s4) \<and>
           stack env3 =
             stack env @ [(Str name, length (cells s)), (Str name, length (cells s3))] \<and>
           name \<in> last (decl_variables_in_scope env3) \<and>
           lookup env3 name s4 = Inr v))"
proof (intro conjI allI impI)
  from assms show d: "last (decl_variables_in_scope env2) = {}"
    by (auto simp: push_def scope_entry_def)
  from assms show st: "stack env2 = stack env @ [(Str name, length (cells s))]"
    by (auto simp: push_def scope_entry_def)
  fix e v s3
  assume e: "evaluate_expr H n e env2 s2 = Some (Inr v, s3)"
  from assms have ne: "decl_variables_in_scope env2 \<noteq> []"
    by (auto simp: push_def scope_entry_def)
  define env3 where
    "env3 = env2\<lparr>decl_variables_in_scope :=
               butlast (decl_variables_in_scope env2) @ [insert name (last (decl_variables_in_scope env2))],
             stack := stack env2 @ [(Str name, length (cells s3))]\<rparr>"
  define s4 where "s4 = s3\<lparr>cells := cells s3 @ [v]\<rparr>"
  from d ne have dv: "declare_var env2 name v s3 = (Inr (), env3, s4)"
    by (simp add: declare_var_def push_def Let_def env3_def s4_def)
  with e have "visit_stmt H (Suc n) (VarDeclStmt name e) env2 s2 = Some (Normal, env3, s4)"
    by (simp add: visit_stmt_VarDeclStmt)
  moreover from st have
    "stack env3 = stack env @ [(Str name, length (cells s)), (Str name, length (cells s3))]"
    by (simp add: env3_def)
  moreover have "name \<in> last (decl_variables_in_scope env3)"
    by (simp add: env3_def)
  moreover have "lookup env3 name s4 = Inr v"
    by (simp add: lookup_def env3_def s4_def)
  ultimately show "\<exists>env3 s4.
           visit_stmt H (Suc n) (VarDeclStmt name e) env2 s2 = Some (Normal, env3, s4) \<and>
           stack env3 =
             stack env @ [(Str name, length (cells s)), (Str name, length (cells s3))] \<and>
           name \<in> last (decl_variables_in_scope env3) \<and>
           lookup env3 name s4 = Inr v"
    by (intro exI conjI)
qed

text \<open>
  An iteration with the item 1 and the body \<open>let x = 7;\<close>, from the empty environment.
\<close>

theorem for_each_variable_witness:
  "push (scope_entry new_env) (Str ''x'') (VInt 1) start =
     (\<lparr>stack = [(Str ''x'', 0)], stack_offsets = [0], decl_variables_in_scope = [{}, {}]\<rparr>,
      start\<lparr>cells := [VInt 1]\<rparr>) \<and>
   (\<exists>env3 s4.
      visit_stmt example_host (Suc 1) (VarDeclStmt ''x'' (SimpleLitExpr (IntLit 7)))
        \<lparr>stack = [(Str ''x'', 0)], stack_offsets = [0], decl_variables_in_scope = [{}, {}]\<rparr>
        (start\<lparr>cells := [VInt 1]\<rparr>) = Some (Normal, env3, s4) \<and>
      stack env3 = stack new_env @ [(Str ''x'', length (cells start)), (Str ''x'', length [VInt 1])] \<and>
      lookup env3 ''x'' s4 = Inr (VInt 7))"
proof -
  let ?env2 = "\<lparr>stack = [(Str ''x'', 0)], stack_offsets = [0], decl_variables_in_scope = [{}, {}]\<rparr>"
  let ?s2 = "start\<lparr>cells := [VInt 1]\<rparr>"
  have p: "push (scope_entry new_env) (Str ''x'') (VInt 1) start = (?env2, ?s2)"
    by (simp add: push_def scope_entry_def new_env_def start_def)
  have e: "evaluate_expr example_host 1 (SimpleLitExpr (IntLit 7)) ?env2 ?s2 =
             Some (Inr (VInt 7), ?s2)"
    by code_simp
  from for_each_variable_is_pushed_not_declared [OF p, of example_host 1]
  have "\<forall>e v s3. evaluate_expr example_host 1 e ?env2 ?s2 = Some (Inr v, s3) \<longrightarrow>
        (\<exists>env3 s4.
           visit_stmt example_host (Suc 1) (VarDeclStmt ''x'' e) ?env2 ?s2 = Some (Normal, env3, s4) \<and>
           stack env3 =
             stack new_env @ [(Str ''x'', length (cells start)), (Str ''x'', length (cells s3))] \<and>
           ''x'' \<in> last (decl_variables_in_scope env3) \<and>
           lookup env3 ''x'' s4 = Inr v)"
    by (elim conjE)
  from this [rule_format, OF e] obtain env3 s4 where
    "visit_stmt example_host (Suc 1) (VarDeclStmt ''x'' (SimpleLitExpr (IntLit 7))) ?env2 ?s2 =
       Some (Normal, env3, s4)"
    "stack env3 = stack new_env @ [(Str ''x'', length (cells start)), (Str ''x'', length (cells ?s2))]"
    "lookup env3 ''x'' s4 = Inr (VInt 7)"
    by (elim exE conjE)
  then have "\<exists>env3 s4.
      visit_stmt example_host (Suc 1) (VarDeclStmt ''x'' (SimpleLitExpr (IntLit 7))) ?env2 ?s2 =
        Some (Normal, env3, s4) \<and>
      stack env3 = stack new_env @ [(Str ''x'', length (cells start)), (Str ''x'', length [VInt 1])] \<and>
      lookup env3 ''x'' s4 = Inr (VInt 7)"
    by (intro exI [of _ env3] exI [of _ s4]) simp
  with p show ?thesis by (intro conjI)
qed

text \<open>
  The loop \<open>for (let x in [1, 2]) { print(x); let x = 7; print(x); }\<close> prints 1, 7, 2, 7.
\<close>

lemma for_each_redeclaration_program:
  "map_option (\<lambda>(r, env, s). (r, printed (heap s)))
     (evaluate example_host 12
        [Stmt (IteratorBasedForLoopStmt ''x''
                 (ListLitExpr [SimpleLitExpr (IntLit 1), SimpleLitExpr (IntLit 2)])
                 (BlockStmt
                    [ExprStmt (CallExpr (AccessExpr ''print'') [AccessExpr ''x'']),
                     VarDeclStmt ''x'' (SimpleLitExpr (IntLit 7)),
                     ExprStmt (CallExpr (AccessExpr ''print'') [AccessExpr ''x''])]))]
        example_built_ins start) =
   Some (Finished, [[VInt 1], [VInt 7], [VInt 2], [VInt 7]])"
  by code_simp


text \<open>
  Claim C1: the closure built at a function's definition snapshots the environment;
  afterwards, mutations of the original environment, assignments to already-bound
  variables included, are not visible inside calls of the closure, and mutations made
  during a call, assignments to captured variables included, are not visible in the
  caller's environment. The two programs below are
  \<open>let x = 1; fn get() { return x; } x = 99; print(get());\<close> and
  \<open>let c = 0; fn inc() { c = add(c, 1); } inc(); print(c);\<close>. By the claim they print
  1 and 0.
\<close>

theorem closure_sees_assignments_both_ways:
  "map_option (\<lambda>(r, env, s). (r, printed (heap s)))
     (evaluate example_host 20
        [Stmt (VarDeclStmt ''x'' (SimpleLitExpr (IntLit 1))),
         FnDefinition ''get'' [] (BlockStmt [ReturnStmt (Some (AccessExpr ''x''))]),
         Stmt (ExprStmt (AssignmentExpr ''x'' (SimpleLitExpr (IntLit 99)))),
         Stmt (ExprStmt (CallExpr (AccessExpr ''print'') [CallExpr (AccessExpr ''get'') []]))]
        example_built_ins start) =
   Some (Finished, [[VInt 99]]) \<and>
   map_option (\<lambda>(r, env, s). (r, printed (heap s)))
     (evaluate example_host 20
        [Stmt (VarDeclStmt ''c'' (SimpleLitExpr (IntLit 0))),
         FnDefinition ''inc'' []
           (BlockStmt [ExprStmt (AssignmentExpr ''c''
              (CallExpr (AccessExpr ''add'') [AccessExpr ''c'', SimpleLitExpr (IntLit 1)]))]),
         Stmt (ExprStmt (CallExpr (AccessExpr ''inc'') [])),
         Stmt (ExprStmt (CallExpr (AccessExpr ''print'') [AccessExpr ''c'']))]
        example_built_ins start) =
   Some (Finished, [[VInt 1]])"
  by code_simp

text \<open>
  What \<open>copy\<close> copies is the list of \<open>Var\<close> objects, not the objects. The forward
  declaration of functions relies on it: \<open>_visit_fn_definition\<close> assigns the closure to
  its name after the closure has captured the environment, and a recursive call finds
  it there.
\<close>

lemma number_5: "n + 5 = Suc (Suc (Suc (Suc (Suc n))))"
  by simp

lemma number_6: "n + 6 = Suc (Suc (Suc (Suc (Suc (Suc n)))))"
  by simp

lemma assign_same_stack: "stack env' = stack env \<Longrightarrow> assign env' name v s = assign env name v s"
  by (simp add: assign_def has_def)

lemma getter_call:
  "compiled H (n + 5) f [] (BlockStmt [ReturnStmt (Some (AccessExpr x))]) captured_env [] s =
     Some (case lookup captured_env x s of Inl e \<Rightarrow> Inl (exn_msg e) | Inr v \<Rightarrow> Inr v, s)"
proof -
  let ?env = "scope_entry (copy captured_env)"
  have l: "lookup ?env x s = lookup captured_env x s"
    by (rule lookup_same_stack) simp
  have "visit_stmt H (Suc (Suc n)) (ReturnStmt (Some (AccessExpr x))) ?env s =
      Some (case lookup captured_env x s of Inl e \<Rightarrow> Raise e | Inr v \<Rightarrow> Return v, ?env, s)"
    by (simp add: visit_stmt_ReturnStmt evaluate_expr_AccessExpr l split: sum.split)
  then have "visit_stmts H (Suc (Suc (Suc n))) [ReturnStmt (Some (AccessExpr x))] ?env s =
      Some (case lookup captured_env x s of Inl e \<Rightarrow> Raise e | Inr v \<Rightarrow> Return v, ?env, s)"
    by (simp add: visit_stmts_Cons split: sum.split)
  then have "visit_block_stmt H (Suc (Suc (Suc (Suc n)))) (BlockStmt [ReturnStmt (Some (AccessExpr x))])
      ?env s =
      Some (case lookup captured_env x s of Inl e \<Rightarrow> Raise e | Inr v \<Rightarrow> Return v, ?env, s)"
    by (simp add: visit_block_stmt_BlockStmt)
  then have "with_scope (visit_block_stmt H (Suc (Suc (Suc (Suc n))))
       (BlockStmt [ReturnStmt (Some (AccessExpr x))])) (copy captured_env) s =
      Some (case lookup captured_env x s of Inl e \<Rightarrow> Raise e | Inr v \<Rightarrow> Return v,
            copy captured_env, s)"
    by (rule with_scope_same_env)
  then show ?thesis
    by (simp add: number_5 compiled_no_params split: sum.split)
qed

lemma setter_call:
  "compiled H (n + 6) f [] (BlockStmt [ExprStmt (AssignmentExpr x (SimpleLitExpr l))])
     captured_env [] s =
     Some (case assign captured_env x (lit_val l) s of
             (Inl e, s') \<Rightarrow> (Inl (exn_msg e), s')
           | (Inr u, s') \<Rightarrow> (Inr VNone, s'))"
proof -
  let ?env = "scope_entry (copy captured_env)"
  obtain r s' where a: "assign captured_env x (lit_val l) s = (r, s')"
    by (cases "assign captured_env x (lit_val l) s")
  have a': "assign ?env x (lit_val l) s = (r, s')"
    using a by (simp add: assign_same_stack [of ?env captured_env])
  have "visit_stmt H (Suc (Suc (Suc n))) (ExprStmt (AssignmentExpr x (SimpleLitExpr l))) ?env s =
      Some (case r of Inl e \<Rightarrow> Raise e | Inr u \<Rightarrow> Normal, ?env, s')"
    by (simp add: visit_stmt_ExprStmt evaluate_expr_AssignmentExpr evaluate_expr_SimpleLitExpr a'
             split: sum.split)
  then have "visit_stmts H (Suc (Suc (Suc (Suc n)))) [ExprStmt (AssignmentExpr x (SimpleLitExpr l))]
      ?env s = Some (case r of Inl e \<Rightarrow> Raise e | Inr u \<Rightarrow> Normal, ?env, s')"
    by (simp add: visit_stmts_Cons visit_stmts_Nil split: sum.split)
  then have "visit_block_stmt H (Suc (Suc (Suc (Suc (Suc n)))))
      (BlockStmt [ExprStmt (AssignmentExpr x (SimpleLitExpr l))]) ?env s =
      Some (case r of Inl e \<Rightarrow> Raise e | Inr u \<Rightarrow> Normal, ?env, s')"
    by (simp add: visit_block_stmt_BlockStmt)
  then have "with_scope (visit_block_stmt H (Suc (Suc (Suc (Suc (Suc n)))))
      (BlockStmt [ExprStmt (AssignmentExpr x (SimpleLitExpr l))])) (copy captured_env) s =
      Some (case r of Inl e \<Rightarrow> Raise e | Inr u \<Rightarrow> Normal, copy captured_env, s')"
    by (rule with_scope_same_env)
  then show ?thesis
    by (simp add: number_6 compiled_no_params a split: sum.split)
qed

lemma local_declaration_call:
  "compiled H (n + 5) f [] (BlockStmt [VarDeclStmt y (SimpleLitExpr l)]) captured_env [] s =
     Some (Inr VNone, s\<lparr>cells := cells s @ [lit_val l]\<rparr>)"
proof -
  let ?env = "scope_entry (copy captured_env)"
  let ?s' = "s\<lparr>cells := cells s @ [lit_val l]\<rparr>"
  obtain env' where d: "declare_var ?env y (lit_val l) s = (Inr (), env', ?s')"
    and x: "scope_exit Normal env' = (Normal, copy captured_env)"
    by (simp add: declare_var_def push_def scope_entry_def scope_exit_def Let_def copy_def)
  have "visit_stmt H (Suc (Suc n)) (VarDeclStmt y (SimpleLitExpr l)) ?env s = Some (Normal, env', ?s')"
    by (simp add: visit_stmt_VarDeclStmt evaluate_expr_SimpleLitExpr d)
  then have "visit_stmts H (Suc (Suc (Suc n))) [VarDeclStmt y (SimpleLitExpr l)] ?env s =
      Some (Normal, env', ?s')"
    by (simp add: visit_stmts_Cons visit_stmts_Nil)
  then have "visit_block_stmt H (Suc (Suc (Suc (Suc n)))) (BlockStmt [VarDeclStmt y (SimpleLitExpr l)])
      ?env s = Some (Normal, env', ?s')"
    by (simp add: visit_block_stmt_BlockStmt)
  then have "with_scope (visit_block_stmt H (Suc (Suc (Suc (Suc n))))
      (BlockStmt [VarDeclStmt y (SimpleLitExpr l)])) (copy captured_env) s =
      Some (Normal, copy captured_env, ?s')"
    by (simp add: with_scope_def x)
  then show ?thesis
    by (simp add: number_5 compiled_no_params)
qed

lemma find_SomeD: "find P xs = Some y \<Longrightarrow> y \<in> set xs \<and> P y"
  by (induction xs) (auto split: if_splits)

lemma lookup_after_assign:
  assumes wf: "\<forall>var \<in> set (stack env). snd var < length (cells s)" and h: "has env x"
  shows "lookup env x (s\<lparr>cells := assign_cells (stack env) x v (cells s)\<rparr>) = Inr v"
proof -
  from h obtain a where "(Str x, a) \<in> set (stack env)"
    by (auto simp: has_iff)
  then have "\<exists>var. var \<in> set (rev (stack env)) \<and> fst var = Str x"
    by (intro exI [of _ "(Str x, a)"]) simp
  then have "find (\<lambda>var. fst var = Str x) (rev (stack env)) \<noteq> None"
    by (simp add: find_None_iff)
  then obtain var where f: "find (\<lambda>var. fst var = Str x) (rev (stack env)) = Some var"
    by blast
  from find_SomeD [OF f] have m: "var \<in> set (stack env)" and n: "fst var = Str x"
    by simp_all
  from m wf have "snd var < length (cells s)" by blast
  moreover have "(Str x, snd var) \<in> set (stack env)"
  proof -
    obtain nm a where "var = (nm, a)" by (cases var)
    with m n show ?thesis by simp
  qed
  ultimately have "assign_cells (stack env) x v (cells s) ! snd var = v"
    by (simp add: assign_cells_nth)
  with f show ?thesis by (simp add: lookup_def)
qed

lemma lookup_after_append:
  assumes wf: "\<forall>var \<in> set (stack env). snd var < length (cells s)"
  shows "lookup env z (s\<lparr>cells := cells s @ vs\<rparr>) = lookup env z s"
proof (cases "find (\<lambda>var. fst var = Str z) (rev (stack env))")
  case None
  then show ?thesis by (simp add: lookup_def)
next
  case (Some var)
  from find_SomeD [OF Some] have "var \<in> set (stack env)" by simp
  with wf have "snd var < length (cells s)" by blast
  with Some show ?thesis by (simp add: lookup_def nth_append)
qed

text \<open>
  Claim C1 as amended. The closure that \<open>_compile_fn\<close> builds in \<open>env\<close> holds \<open>copy env\<close>:
  a copy of the three stacks that shares the \<open>Var\<close> objects. For every environment
  whose variables are in the store: (1) an assignment in the original environment
  after the construction is read inside a call of the closure; (2) a variable declared
  in the original environment after the construction is found there and not inside a
  call; (3) an assignment made during a call is read in the original environment after
  the call; (4) a variable declared during a call changes no variable of the original
  environment. The calls are those of the functions \<open>{ return x; }\<close>, \<open>{ x = l; }\<close>
  and \<open>{ let y = l; }\<close>.
\<close>

theorem closure_copies_stacks_and_shares_cells:
  assumes wf: "\<forall>var \<in> set (stack env). snd var < length (cells s)"
  shows
    "compile_fn (FnDefinition f param_names body_block) env =
       VFn f param_names body_block (copy env) \<and>
     (\<forall>x v s'. assign env x v s = (Inr (), s') \<longrightarrow>
        compiled H (n + 5) f [] (BlockStmt [ReturnStmt (Some (AccessExpr x))]) (copy env) [] s' =
          Some (Inr v, s')) \<and>
     (\<forall>y w env' s'. \<not> has env y \<and> declare_var env y w s = (Inr (), env', s') \<longrightarrow>
        lookup env' y s' = Inr w \<and>
        compiled H (n + 5) f [] (BlockStmt [ReturnStmt (Some (AccessExpr y))]) (copy env) [] s' =
          Some (Inl (UndefinedVariable y), s')) \<and>
     (\<forall>x l. has env x \<longrightarrow>
        (\<exists>s'. compiled H (n + 6) f [] (BlockStmt [ExprStmt (AssignmentExpr x (SimpleLitExpr l))])
                 (copy env) [] s = Some (Inr VNone, s') \<and>
              lookup env x s' = Inr (lit_val l))) \<and>
     (\<forall>y l. \<exists>s'. compiled H (n + 5) f [] (BlockStmt [VarDeclStmt y (SimpleLitExpr l)])
                    (copy env) [] s = Some (Inr VNone, s') \<and>
                  (\<forall>z. lookup env z s' = lookup env z s))"
proof (intro conjI allI impI)
  show "compile_fn (FnDefinition f param_names body_block) env =
       VFn f param_names body_block (copy env)"
    by (simp add: compile_fn_def)
next
  fix x v s'
  assume a: "assign env x v s = (Inr (), s')"
  then have h: "has env x" and s': "s' = s\<lparr>cells := assign_cells (stack env) x v (cells s)\<rparr>"
    by (auto simp: assign_def Let_def split: if_splits)
  from lookup_after_assign [OF wf h] s' have "lookup (copy env) x s' = Inr v"
    by (simp add: lookup_same_stack [of "copy env" env])
  then show "compiled H (n + 5) f [] (BlockStmt [ReturnStmt (Some (AccessExpr x))]) (copy env) [] s' =
          Some (Inr v, s')"
    by (simp add: getter_call)
next
  fix y w env' s'
  assume d: "\<not> has env y \<and> declare_var env y w s = (Inr (), env', s')"
  then have st: "stack env' = stack env @ [(Str y, length (cells s))]"
    and s': "s' = s\<lparr>cells := cells s @ [w]\<rparr>"
    by (auto simp: declare_var_def push_def Let_def split: if_splits)
  from st s' show "lookup env' y s' = Inr w"
    by (simp add: lookup_def)
  from d have "find (\<lambda>var. fst var = Str y) (rev (stack env)) = None"
    by (auto simp: has_def find_None_iff)
  then have "lookup (copy env) y s' = Inl (RuntimeError (UndefinedVariable y))"
    by (simp add: lookup_def)
  then show "compiled H (n + 5) f [] (BlockStmt [ReturnStmt (Some (AccessExpr y))]) (copy env) [] s' =
          Some (Inl (UndefinedVariable y), s')"
    by (simp add: getter_call)
next
  fix x l
  assume h: "has env x"
  let ?s' = "s\<lparr>cells := assign_cells (stack env) x (lit_val l) (cells s)\<rparr>"
  from h have "assign (copy env) x (lit_val l) s = (Inr (), ?s')"
    by (simp add: assign_def has_def Let_def)
  then have "compiled H (n + 6) f [] (BlockStmt [ExprStmt (AssignmentExpr x (SimpleLitExpr l))])
                 (copy env) [] s = Some (Inr VNone, ?s')"
    by (simp add: setter_call)
  moreover have "lookup env x ?s' = Inr (lit_val l)"
    by (rule lookup_after_assign [OF wf h])
  ultimately show "\<exists>s'. compiled H (n + 6) f []
      (BlockStmt [ExprStmt (AssignmentExpr x (SimpleLitExpr l))]) (copy env) [] s =
        Some (Inr VNone, s') \<and> lookup env x s' = Inr (lit_val l)"
    by (intro exI conjI)
next
  fix y l
  have "\<forall>z. lookup env z (s\<lparr>cells := cells s @ [lit_val l]\<rparr>) = lookup env z s"
    by (simp add: lookup_after_append [OF wf])
  then show "\<exists>s'. compiled H (n + 5) f [] (BlockStmt [VarDeclStmt y (SimpleLitExpr l)])
                    (copy env) [] s = Some (Inr VNone, s') \<and>
                  (\<forall>z. lookup env z s' = lookup env z s)"
    by (intro exI [of _ "s\<lparr>cells := cells s @ [lit_val l]\<rparr>"] conjI local_declaration_call)
qed

text \<open>
  The environment with \<open>x\<close> at address 0 and the value 0 there: after \<open>x = 5\<close> in the
  original environment, a call of \<open>{ return x; }\<close> through the copy returns 5.
\<close>

theorem closure_copies_stacks_witness:
  "stack env_x = [(Str ''x'', 0)] \<and> length (cells state_x) = 1 \<and>
   assign env_x ''x'' (VInt 5) state_x = (Inr (), state_x\<lparr>cells := [VInt 5]\<rparr>) \<and>
   compiled example_host (0 + 5) ''get'' [] (BlockStmt [ReturnStmt (Some (AccessExpr ''x''))])
     (copy env_x) [] (state_x\<lparr>cells := [VInt 5]\<rparr>) =
     Some (Inr (VInt 5), state_x\<lparr>cells := [VInt 5]\<rparr>)"
proof -
  have wf: "\<forall>var \<in> set (stack env_x). snd var < length (cells state_x)"
    by (simp add: env_x_def state_x_def)
  have a: "assign env_x ''x'' (VInt 5) state_x = (Inr (), state_x\<lparr>cells := [VInt 5]\<rparr>)"
    by (simp add: assign_def assign_cells_def has_def env_x_def state_x_def)
  note t = closure_copies_stacks_and_shares_cells [OF wf, of "''get''" "[]" "BlockStmt []" example_host 0]
  have "stack env_x = [(Str ''x'', 0)]" "length (cells state_x) = 1"
    by (simp_all add: env_x_def state_x_def)
  with a t [THEN conjunct2, THEN conjunct1, rule_format, OF a] show ?thesis
    by (intro conjI)
qed


section \<open>Scopes are balanced\<close>

text \<open>
  What a statement may do to the environment it is given: append bindings to the
  stack and add names to the last declared set. \<open>frame env env'\<close> says that \<open>env'\<close>
  comes from \<open>env\<close> in this way.
\<close>

definition frame :: "RuntimeEnv \<Rightarrow> RuntimeEnv \<Rightarrow> bool" where
  "frame env env' =
     (stack_offsets env' = stack_offsets env \<and>
      take (length (stack env)) (stack env') = stack env \<and>
      length (stack env) \<le> length (stack env') \<and>
      length (decl_variables_in_scope env') = length (decl_variables_in_scope env) \<and>
      butlast (decl_variables_in_scope env') = butlast (decl_variables_in_scope env))"

lemma frame_refl [simp]: "frame env env"
  by (simp add: frame_def)

lemma frame_trans: "frame env env1 \<Longrightarrow> frame env1 env2 \<Longrightarrow> frame env env2"
proof -
  assume a: "frame env env1" and b: "frame env1 env2"
  from a b have l: "length (stack env) \<le> length (stack env2)"
    by (simp add: frame_def)
  from a have "stack env = take (length (stack env)) (stack env1)"
    by (simp add: frame_def)
  also from b have "\<dots> = take (length (stack env)) (take (length (stack env1)) (stack env2))"
    by (simp add: frame_def)
  also from a have "\<dots> = take (length (stack env)) (stack env2)"
    by (simp add: frame_def min_def)
  finally have "take (length (stack env)) (stack env2) = stack env" by simp
  with a b l show ?thesis by (simp add: frame_def)
qed

lemma frame_push: "push env name v s = (env', s') \<Longrightarrow> frame env env'"
  by (auto simp: push_def frame_def)

lemma frame_declare_var: "declare_var env name v s = (r, env', s') \<Longrightarrow> frame env env'"
  by (auto simp: declare_var_def push_def frame_def Let_def split: if_splits)

lemma frame_declare_params: "declare_params env ps s = (r, env', s') \<Longrightarrow> frame env env'"
proof (induction ps arbitrary: env s)
  case Nil
  then show ?case by simp
next
  case (Cons p ps)
  obtain param arg where p: "p = (param, arg)" by (cases p)
  obtain r1 env1 s1 where d: "declare_var env param arg s = (r1, env1, s1)"
    by (cases "declare_var env param arg s")
  note f1 = frame_declare_var [OF d]
  show ?case
  proof (cases r1)
    case (Inl x)
    with Cons.prems p d f1 show ?thesis by simp
  next
    case (Inr u)
    with Cons.prems p d have "declare_params env1 ps s1 = (r, env', s')" by simp
    from frame_trans [OF f1 Cons.IH [OF this]] show ?thesis .
  qed
qed

text \<open>
  The exit of a scope whose body has kept to the frame: the \<open>finally\<close> part raises
  nothing, the body's outcome is the scope's outcome, and the environment is the one
  the scope was entered with.
\<close>

lemma scope_exit_frame:
  assumes "frame (scope_entry env) env1"
  shows "scope_exit out env1 = (out, env)"
proof -
  from assms have o: "stack_offsets env1 = stack_offsets env @ [length (stack env)]"
    and t: "take (length (stack env)) (stack env1) = stack env"
    and l: "length (decl_variables_in_scope env1) = Suc (length (decl_variables_in_scope env))"
    and b: "butlast (decl_variables_in_scope env1) = decl_variables_in_scope env"
    by (simp_all add: frame_def scope_entry_def)
  from l have ne: "decl_variables_in_scope env1 \<noteq> []" by auto
  from o t ne b show ?thesis
    by (cases env; cases env1) (simp add: scope_exit_def Let_def)
qed

lemma with_scope_frame:
  assumes body: "\<And>out env1 s1. body (scope_entry env) s = Some (out, env1, s1) \<Longrightarrow>
                   frame (scope_entry env) env1"
    and ret: "with_scope body env s = Some (out, env', s')"
  shows "env' = env \<and> (\<exists>env1. body (scope_entry env) s = Some (out, env1, s'))"
proof -
  from ret obtain o1 env1 where b: "body (scope_entry env) s = Some (o1, env1, s')"
    and x: "scope_exit o1 env1 = (out, env')"
    by (auto simp: with_scope_def split: option.splits prod.splits)
  from scope_exit_frame [OF body [OF b]] x have "out = o1" "env' = env" by simp_all
  with b show ?thesis by blast
qed

text \<open>Every statement keeps to the frame, by induction on the number of steps.\<close>

definition stmts_keep_frame :: "'h host \<Rightarrow> nat \<Rightarrow> bool" where
  "stmts_keep_frame H n =
     ((\<forall>st env s out env' s'. visit_stmt H n st env s = Some (out, env', s') \<longrightarrow> frame env env') \<and>
      (\<forall>b env s out env' s'. visit_block_stmt H n b env s = Some (out, env', s') \<longrightarrow> frame env env') \<and>
      (\<forall>sts env s out env' s'. visit_stmts H n sts env s = Some (out, env', s') \<longrightarrow> frame env env') \<and>
      (\<forall>c b env s out env' s'. while_loop H n c b env s = Some (out, env', s') \<longrightarrow> frame env env') \<and>
      (\<forall>name it b env s out env' s'.
          for_loop H n name it b env s = Some (out, env', s') \<longrightarrow> frame env env'))"

lemma keep_frame_stmt:
  assumes "stmts_keep_frame H n" and v: "visit_stmt H n st env s = Some (out, env', s')"
  shows "frame env env'"
proof -
  from assms(1) have "\<forall>st env s out env' s'.
      visit_stmt H n st env s = Some (out, env', s') \<longrightarrow> frame env env'"
    by (simp add: stmts_keep_frame_def)
  from this [rule_format, OF v] show ?thesis .
qed

lemma keep_frame_block:
  assumes "stmts_keep_frame H n" and v: "visit_block_stmt H n b env s = Some (out, env', s')"
  shows "frame env env'"
proof -
  from assms(1) have "\<forall>b env s out env' s'.
      visit_block_stmt H n b env s = Some (out, env', s') \<longrightarrow> frame env env'"
    by (simp add: stmts_keep_frame_def)
  from this [rule_format, OF v] show ?thesis .
qed

lemma keep_frame_stmts:
  assumes "stmts_keep_frame H n" and v: "visit_stmts H n sts env s = Some (out, env', s')"
  shows "frame env env'"
proof -
  from assms(1) have "\<forall>sts env s out env' s'.
      visit_stmts H n sts env s = Some (out, env', s') \<longrightarrow> frame env env'"
    by (simp add: stmts_keep_frame_def)
  from this [rule_format, OF v] show ?thesis .
qed

lemma keep_frame_while:
  assumes "stmts_keep_frame H n" and v: "while_loop H n c b env s = Some (out, env', s')"
  shows "frame env env'"
proof -
  from assms(1) have "\<forall>c b env s out env' s'.
      while_loop H n c b env s = Some (out, env', s') \<longrightarrow> frame env env'"
    by (simp add: stmts_keep_frame_def)
  from this [rule_format, OF v] show ?thesis .
qed

lemma keep_frame_for:
  assumes "stmts_keep_frame H n" and v: "for_loop H n name it b env s = Some (out, env', s')"
  shows "frame env env'"
proof -
  from assms(1) have "\<forall>name it b env s out env' s'.
      for_loop H n name it b env s = Some (out, env', s') \<longrightarrow> frame env env'"
    by (simp add: stmts_keep_frame_def)
  from this [rule_format, OF v] show ?thesis .
qed

lemma with_scope_block_frame:
  assumes "stmts_keep_frame H n"
    and "with_scope (visit_block_stmt H n b) env s = Some (out, env', s')"
  shows "env' = env"
  using with_scope_frame [OF keep_frame_block [OF assms(1)] assms(2)] by simp

lemma with_scope_push_block_frame:
  assumes k: "stmts_keep_frame H n"
    and w: "with_scope (\<lambda>env s. case push env name v s of
                                  (env', s') \<Rightarrow> visit_block_stmt H n b env' s') env s =
            Some (out, env', s')"
  shows "env' = env"
proof -
  have "\<And>out env1 s1.
      (case push (scope_entry env) name v s of (env', s') \<Rightarrow> visit_block_stmt H n b env' s') =
        Some (out, env1, s1) \<Longrightarrow> frame (scope_entry env) env1"
  proof -
    fix out env1 s1
    obtain e2 s2 where p: "push (scope_entry env) name v s = (e2, s2)"
      by (cases "push (scope_entry env) name v s")
    assume "(case push (scope_entry env) name v s of (env', s') \<Rightarrow> visit_block_stmt H n b env' s') =
        Some (out, env1, s1)"
    with p have "visit_block_stmt H n b e2 s2 = Some (out, env1, s1)" by simp
    from frame_trans [OF frame_push [OF p] keep_frame_block [OF k this]]
    show "frame (scope_entry env) env1" .
  qed
  from with_scope_frame [of "\<lambda>env s. case push env name v s of
                                  (env', s') \<Rightarrow> visit_block_stmt H n b env' s'", OF this w]
  show ?thesis by simp
qed

lemma with_scope_catch_frame:
  assumes k: "stmts_keep_frame H n"
    and w: "with_scope
              (\<lambda>env s.
                 case (case err_var_binding_name of
                         Some name \<Rightarrow> if name \<noteq> [] then push env (Str name) (VExc x) s else (env, s)
                       | None \<Rightarrow> (env, s)) of
                   (env', s') \<Rightarrow> visit_block_stmt H n catch_block env' s')
              env s = Some (out, env', s')"
  shows "env' = env"
proof (cases "\<exists>name. err_var_binding_name = Some name \<and> name \<noteq> []")
  case True
  then obtain name where "err_var_binding_name = Some name" "name \<noteq> []" by blast
  with w have "with_scope (\<lambda>env s. case push env (Str name) (VExc x) s of
                              (env', s') \<Rightarrow> visit_block_stmt H n catch_block env' s') env s =
            Some (out, env', s')"
    by simp
  from with_scope_push_block_frame [OF k this] show ?thesis .
next
  case False
  then have "(case err_var_binding_name of
                Some name \<Rightarrow> if name \<noteq> [] then push env1 (Str name) (VExc x) s1 else (env1, s1)
              | None \<Rightarrow> (env1, s1)) = (env1, s1)" for env1 and s1 :: "'a state"
    by (cases err_var_binding_name) auto
  with w have "with_scope (visit_block_stmt H n catch_block) env s = Some (out, env', s')"
    by simp
  from with_scope_block_frame [OF k this] show ?thesis .
qed

lemma with_scope_call_frame:
  assumes k: "stmts_keep_frame H n"
    and w: "with_scope
              (\<lambda>env s. case declare_params env ps s of
                          (Inl x, env1, s1) \<Rightarrow> Some (Raise x, env1, s1)
                        | (Inr u, env1, s1) \<Rightarrow> visit_block_stmt H n body_block env1 s1)
              env s = Some (out, env', s')"
  shows "env' = env"
proof -
  have "\<And>out env1 s1.
      (case declare_params (scope_entry env) ps s of
         (Inl x, env1, s1) \<Rightarrow> Some (Raise x, env1, s1)
       | (Inr u, env1, s1) \<Rightarrow> visit_block_stmt H n body_block env1 s1) =
        Some (out, env1, s1) \<Longrightarrow> frame (scope_entry env) env1"
  proof -
    fix out env1 s1
    obtain r e2 s2 where p: "declare_params (scope_entry env) ps s = (r, e2, s2)"
      by (cases "declare_params (scope_entry env) ps s")
    assume a: "(case declare_params (scope_entry env) ps s of
         (Inl x, env1, s1) \<Rightarrow> Some (Raise x, env1, s1)
       | (Inr u, env1, s1) \<Rightarrow> visit_block_stmt H n body_block env1 s1) =
        Some (out, env1, s1)"
    show "frame (scope_entry env) env1"
    proof (cases r)
      case (Inl x)
      with a p have "env1 = e2" by simp
      with frame_declare_params [OF p] show ?thesis by simp
    next
      case (Inr u)
      with a p have "visit_block_stmt H n body_block e2 s2 = Some (out, env1, s1)" by simp
      from frame_trans [OF frame_declare_params [OF p] keep_frame_block [OF k this]]
      show ?thesis .
    qed
  qed
  from with_scope_frame [of "\<lambda>env s. case declare_params env ps s of
                          (Inl x, env1, s1) \<Rightarrow> Some (Raise x, env1, s1)
                        | (Inr u, env1, s1) \<Rightarrow> visit_block_stmt H n body_block env1 s1", OF this w]
  show ?thesis by simp
qed


lemma stmts_keep_frame: "stmts_keep_frame H n"
proof (induction n)
  case 0
  show ?case
    by (simp add: stmts_keep_frame_def visit_stmt.simps(1) visit_block_stmt.simps(1)
                  visit_stmts.simps(1) while_loop.simps(1) for_loop.simps(1))
next
  case (Suc n)
  note k = Suc.IH
  have f_stmt: "frame env env'" if v: "visit_stmt H (Suc n) st env s = Some (out, env', s')"
    for st env s out env' s'
  proof (cases st)
    case (BlockStmt stmts)
    with v have "with_scope (visit_block_stmt H n (BlockStmt stmts)) env s = Some (out, env', s')"
      by (simp add: visit_stmt_BlockStmt)
    from with_scope_block_frame [OF k this] show ?thesis by simp
  next
    case (VarDeclStmt var_name e)
    with v show ?thesis
      by (auto simp: visit_stmt_VarDeclStmt split: option.splits sum.splits prod.splits
               dest: frame_declare_var)
  next
    case (IfStmt c if_branch else_branch)
    show ?thesis
    proof (cases "env' = env")
      case True
      then show ?thesis by simp
    next
      case False
      with v IfStmt obtain cond s1 where
        w: "with_scope
              (\<lambda>env s. if py_bool H cond (heap s) then visit_block_stmt H n if_branch env s
                        else (case else_branch of
                                Some b \<Rightarrow> visit_block_stmt H n b env s
                              | None \<Rightarrow> Some (Normal, env, s)))
              env s1 = Some (out, env', s')"
        by (auto simp: visit_stmt_IfStmt split: option.splits sum.splits prod.splits)
      have b: "\<And>out env1 s2.
          (if py_bool H cond (heap s1) then visit_block_stmt H n if_branch (scope_entry env) s1
           else (case else_branch of
                   Some b \<Rightarrow> visit_block_stmt H n b (scope_entry env) s1
                 | None \<Rightarrow> Some (Normal, scope_entry env, s1))) = Some (out, env1, s2) \<Longrightarrow>
          frame (scope_entry env) env1"
        by (auto split: if_splits option.splits dest: keep_frame_block [OF k])
      from with_scope_frame
             [where body = "\<lambda>env s. if py_bool H cond (heap s) then visit_block_stmt H n if_branch env s
                        else (case else_branch of
                                Some b \<Rightarrow> visit_block_stmt H n b env s
                              | None \<Rightarrow> Some (Normal, env, s))" and env = env and s = s1,
              OF b w]
      show ?thesis by simp
    qed
  next
    case (ReturnStmt return_val)
    with v have "env' = env"
      by (auto simp: visit_stmt_ReturnStmt split: option.splits sum.splits prod.splits)
    then show ?thesis by simp
  next
    case (WhileLoopStmt c body_block)
    with v have "while_loop H n c body_block env s = Some (out, env', s')"
      by (simp add: visit_stmt_WhileLoopStmt)
    from keep_frame_while [OF k this] show ?thesis .
  next
    case (IteratorBasedForLoopStmt name e body_block)
    with v have "env' = env \<or> (\<exists>it s1. for_loop H n name it body_block env s1 = Some (out, env', s'))"
      by (auto simp: visit_stmt_IteratorBasedForLoopStmt
               split: option.splits sum.splits prod.splits host_exc.splits)
    then show ?thesis by (auto dest: keep_frame_for [OF k])
  next
    case BreakStmt
    with v show ?thesis by (simp add: visit_stmt_BreakStmt)
  next
    case ContinueStmt
    with v show ?thesis by (simp add: visit_stmt_ContinueStmt)
  next
    case (TryStmt try_block catch_block err_var_binding_name)
    with v obtain o1 env1 s1 where
      t: "with_scope (visit_block_stmt H n try_block) env s = Some (o1, env1, s1)"
      by (auto simp: visit_stmt_TryStmt split: option.splits)
    from with_scope_block_frame [OF k t] have e1: "env1 = env" .
    show ?thesis
    proof (cases "\<exists>x. o1 = Raise x")
      case True
      then obtain x where "o1 = Raise x" by blast
      with v TryStmt t have "with_scope
              (\<lambda>env s.
                 case (case err_var_binding_name of
                         Some name \<Rightarrow> if name \<noteq> [] then push env (Str name) (VExc x) s else (env, s)
                       | None \<Rightarrow> (env, s)) of
                   (env', s') \<Rightarrow> visit_block_stmt H n catch_block env' s')
              env1 s1 = Some (out, env', s')"
        by (simp add: visit_stmt_TryStmt)
      from with_scope_catch_frame [OF k this] e1 show ?thesis by simp
    next
      case False
      with v TryStmt t have "env' = env1"
        by (cases o1) (auto simp: visit_stmt_TryStmt)
      with e1 show ?thesis by simp
    qed
  next
    case (TryStmtSwapped try_block catch_block err_var_binding_name)
    with v obtain o1 env1 s1 where
      t: "with_scope (visit_block_stmt H n try_block) env s = Some (o1, env1, s1)"
      by (auto simp: visit_stmt_TryStmtSwapped split: option.splits)
    from with_scope_block_frame [OF k t] have e1: "env1 = env" .
    show ?thesis
    proof (cases "\<exists>x. o1 = Raise x")
      case True
      then obtain x where "o1 = Raise x" by blast
      with v TryStmtSwapped t have w: "with_scope
              (\<lambda>env s. case push env (Node err_var_binding_name) (VExc x) s of
                          (env', s') \<Rightarrow> Some (Raise (PyException AttributeError), env', s'))
              env1 s1 = Some (out, env', s')"
        by (simp add: visit_stmt_TryStmtSwapped)
      have "\<And>out e2 s2.
          (case push (scope_entry env1) (Node err_var_binding_name) (VExc x) s1 of
             (env', s') \<Rightarrow> Some (Raise (PyException AttributeError), env', s')) =
            Some (out, e2, s2) \<Longrightarrow> frame (scope_entry env1) e2"
        by (auto split: prod.splits dest: frame_push)
      from with_scope_frame
             [where body = "\<lambda>env s. case push env (Node err_var_binding_name) (VExc x) s of
                          (env', s') \<Rightarrow> Some (Raise (PyException AttributeError), env', s')"
                and env = env1 and s = s1, OF this w] e1
      show ?thesis by simp
    next
      case False
      with v TryStmtSwapped t have "env' = env1"
        by (cases o1) (auto simp: visit_stmt_TryStmtSwapped)
      with e1 show ?thesis by simp
    qed
  next
    case (ExprStmt e)
    with v have "env' = env"
      by (auto simp: visit_stmt_ExprStmt split: option.splits sum.splits prod.splits)
    then show ?thesis by simp
  qed
  have f_block: "frame env env'" if v: "visit_block_stmt H (Suc n) b env s = Some (out, env', s')"
    for b env s out env' s'
  proof (cases "\<exists>stmts. b = BlockStmt stmts")
    case True
    then obtain stmts where "b = BlockStmt stmts" by blast
    with v have "visit_stmts H n stmts env s = Some (out, env', s')"
      by (simp add: visit_block_stmt_BlockStmt)
    from keep_frame_stmts [OF k this] show ?thesis .
  next
    case False
    then have nb: "\<forall>stmts. b \<noteq> BlockStmt stmts" by simp
    from v show ?thesis by (simp add: visit_block_stmt_not_block [OF nb])
  qed
  have f_stmts: "frame env env'" if v: "visit_stmts H (Suc n) sts env s = Some (out, env', s')"
    for sts env s out env' s'
  proof (cases sts)
    case Nil
    with v show ?thesis by (simp add: visit_stmts_Nil)
  next
    case (Cons st rest)
    with v obtain o1 env1 s1 where f: "visit_stmt H n st env s = Some (o1, env1, s1)"
      by (auto simp: visit_stmts_Cons split: option.splits)
    note f1 = keep_frame_stmt [OF k f]
    show ?thesis
    proof (cases "o1 = Normal")
      case True
      with v Cons f have "visit_stmts H n rest env1 s1 = Some (out, env', s')"
        by (simp add: visit_stmts_Cons)
      from frame_trans [OF f1 keep_frame_stmts [OF k this]] show ?thesis .
    next
      case False
      with v Cons f have "env' = env1" by (cases o1) (auto simp: visit_stmts_Cons)
      with f1 show ?thesis by simp
    qed
  qed
  have f_while: "frame env env'" if v: "while_loop H (Suc n) c b env s = Some (out, env', s')"
    for c b env s out env' s'
  proof (cases "env' = env")
    case True
    then show ?thesis by simp
  next
    case False
    with v obtain s1 o1 env1 s2 where
      w: "with_scope (visit_block_stmt H n b) env s1 = Some (o1, env1, s2)"
      and r: "(case o1 of
                 Break \<Rightarrow> Some (Normal, env1, s2)
               | Continue \<Rightarrow> while_loop H n c b env1 s2
               | Normal \<Rightarrow> while_loop H n c b env1 s2
               | _ \<Rightarrow> Some (o1, env1, s2)) = Some (out, env', s')"
      by (auto simp: while_loop_Suc
               split: option.splits sum.splits prod.splits if_splits outcome.splits)
    from with_scope_block_frame [OF k w] have e1: "env1 = env" .
    from r False e1 have "while_loop H n c b env1 s2 = Some (out, env', s')"
      by (cases o1) auto
    from keep_frame_while [OF k this] e1 show ?thesis by simp
  qed
  have f_for: "frame env env'" if v: "for_loop H (Suc n) name it b env s = Some (out, env', s')"
    for name it b env s out env' s'
  proof (cases "env' = env")
    case True
    then show ?thesis by simp
  next
    case False
    with v obtain item s1 o1 env1 s2 where
      w: "with_scope (\<lambda>env s. case push env (Str name) item s of
                                  (env', s') \<Rightarrow> visit_block_stmt H n b env' s') env s1 =
             Some (o1, env1, s2)"
      and r: "(case o1 of
                 Break \<Rightarrow> Some (Normal, env1, s2)
               | Continue \<Rightarrow> for_loop H n name it b env1 s2
               | Normal \<Rightarrow> for_loop H n name it b env1 s2
               | _ \<Rightarrow> Some (o1, env1, s2)) = Some (out, env', s')"
      by (auto simp: for_loop_Suc
               split: option.splits sum.splits prod.splits host_exc.splits outcome.splits)
    from with_scope_push_block_frame [OF k w] have e1: "env1 = env" .
    from r False e1 have "for_loop H n name it b env1 s2 = Some (out, env', s')"
      by (cases o1) auto
    from keep_frame_for [OF k this] e1 show ?thesis by simp
  qed
  show ?case
    unfolding stmts_keep_frame_def
    by (intro conjI allI impI) (erule f_stmt f_block f_stmts f_while f_for)+
qed


text \<open>
  Claim C8: for every scope entered during evaluation (a block, a loop iteration, an
  if-branch, the two blocks of try/catch, a function call), the length of the binding
  stack and the length of the stack of declared-name sets after the scope's exit are
  what they were at its entry, on every exit path. The five parts of the theorem are
  the \<open>with env.enter_scope()\<close> statements of the interpreter, in the order: a block
  (of a block statement, of a while iteration, of \<open>try\<close>), the branches of \<open>if\<close>, a
  for-each iteration, the catch block, a call of a closure. The outcome \<open>out\<close> is any
  of normal, exception, break, continue and return. More than the lengths is the
  same: the environment is.
\<close>

definition balanced :: "RuntimeEnv \<Rightarrow> RuntimeEnv \<Rightarrow> bool" where
  "balanced env env' =
     (length (stack env') = length (stack env) \<and>
      length (decl_variables_in_scope env') = length (decl_variables_in_scope env) \<and>
      env' = env)"

theorem scope_exit_restores_stack_lengths:
  "(\<forall>b out env' s'.
      with_scope (visit_block_stmt H n b) env s = Some (out, env', s') \<longrightarrow> balanced env env') \<and>
   (\<forall>cond if_branch else_branch out env' s'.
      with_scope
        (\<lambda>env s. if py_bool H cond (heap s) then visit_block_stmt H n if_branch env s
                  else (case else_branch of
                          Some b \<Rightarrow> visit_block_stmt H n b env s
                        | None \<Rightarrow> Some (Normal, env, s)))
        env s = Some (out, env', s') \<longrightarrow> balanced env env') \<and>
   (\<forall>name item b out env' s'.
      with_scope
        (\<lambda>env s. case push env (Str name) item s of
                    (env', s') \<Rightarrow> visit_block_stmt H n b env' s')
        env s = Some (out, env', s') \<longrightarrow> balanced env env') \<and>
   (\<forall>err_var_binding_name x catch_block out env' s'.
      with_scope
        (\<lambda>env s.
           case (case err_var_binding_name of
                   Some name \<Rightarrow> if name \<noteq> [] then push env (Str name) (VExc x) s else (env, s)
                 | None \<Rightarrow> (env, s)) of
             (env', s') \<Rightarrow> visit_block_stmt H n catch_block env' s')
        env s = Some (out, env', s') \<longrightarrow> balanced env env') \<and>
   (\<forall>param_names args body_block out env' s'.
      with_scope
        (\<lambda>env s. case declare_params env (zip param_names args) s of
                    (Inl x, env1, s1) \<Rightarrow> Some (Raise x, env1, s1)
                  | (Inr u, env1, s1) \<Rightarrow> visit_block_stmt H n body_block env1 s1)
        env s = Some (out, env', s') \<longrightarrow> balanced env env')"
proof (intro conjI allI impI)
  note k = stmts_keep_frame [of H n]
  fix b out env' s'
  assume "with_scope (visit_block_stmt H n b) env s = Some (out, env', s')"
  from with_scope_block_frame [OF k this] show "balanced env env'"
    by (simp add: balanced_def)
next
  note k = stmts_keep_frame [of H n]
  fix cond if_branch else_branch out env' s'
  assume w: "with_scope
        (\<lambda>env s. if py_bool H cond (heap s) then visit_block_stmt H n if_branch env s
                  else (case else_branch of
                          Some b \<Rightarrow> visit_block_stmt H n b env s
                        | None \<Rightarrow> Some (Normal, env, s)))
        env s = Some (out, env', s')"
  have b: "\<And>out env1 s2.
      (if py_bool H cond (heap s) then visit_block_stmt H n if_branch (scope_entry env) s
       else (case else_branch of
               Some b \<Rightarrow> visit_block_stmt H n b (scope_entry env) s
             | None \<Rightarrow> Some (Normal, scope_entry env, s))) = Some (out, env1, s2) \<Longrightarrow>
      frame (scope_entry env) env1"
    by (auto split: if_splits option.splits dest: keep_frame_block [OF k])
  from with_scope_frame
         [where body = "\<lambda>env s. if py_bool H cond (heap s) then visit_block_stmt H n if_branch env s
                    else (case else_branch of
                            Some b \<Rightarrow> visit_block_stmt H n b env s
                          | None \<Rightarrow> Some (Normal, env, s))" and env = env and s = s,
          OF b w]
  show "balanced env env'"
    by (simp add: balanced_def)
next
  note k = stmts_keep_frame [of H n]
  fix name item b out env' s'
  assume "with_scope
        (\<lambda>env s. case push env (Str name) item s of
                    (env', s') \<Rightarrow> visit_block_stmt H n b env' s')
        env s = Some (out, env', s')"
  from with_scope_push_block_frame [OF k this] show "balanced env env'"
    by (simp add: balanced_def)
next
  note k = stmts_keep_frame [of H n]
  fix err_var_binding_name x catch_block out env' s'
  assume "with_scope
        (\<lambda>env s.
           case (case err_var_binding_name of
                   Some name \<Rightarrow> if name \<noteq> [] then push env (Str name) (VExc x) s else (env, s)
                 | None \<Rightarrow> (env, s)) of
             (env', s') \<Rightarrow> visit_block_stmt H n catch_block env' s')
        env s = Some (out, env', s')"
  from with_scope_catch_frame [OF k this] show "balanced env env'"
    by (simp add: balanced_def)
next
  note k = stmts_keep_frame [of H n]
  fix param_names args body_block out env' s'
  assume "with_scope
        (\<lambda>env s. case declare_params env (zip param_names args) s of
                    (Inl x, env1, s1) \<Rightarrow> Some (Raise x, env1, s1)
                  | (Inr u, env1, s1) \<Rightarrow> visit_block_stmt H n body_block env1 s1)
        env s = Some (out, env', s')"
  from with_scope_call_frame [OF k this] show "balanced env env'"
    by (simp add: balanced_def)
qed

text \<open>
  The block \<open>{ let x = 1; nope; }\<close> ends with the runtime error of the undefined \<open>nope\<close>,
  after \<open>x\<close> was pushed; at the exit the stack is empty again.
\<close>

theorem scope_exit_witness:
  "with_scope
     (visit_block_stmt example_host 5
        (BlockStmt [VarDeclStmt ''x'' (SimpleLitExpr (IntLit 1)), ExprStmt (AccessExpr ''nope'')]))
     new_env start =
     Some (Raise (RuntimeError (UndefinedVariable ''nope'')), new_env, start\<lparr>cells := [VInt 1]\<rparr>) \<and>
   balanced new_env new_env"
proof -
  have w: "with_scope
     (visit_block_stmt example_host 5
        (BlockStmt [VarDeclStmt ''x'' (SimpleLitExpr (IntLit 1)), ExprStmt (AccessExpr ''nope'')]))
     new_env start =
     Some (Raise (RuntimeError (UndefinedVariable ''nope'')), new_env, start\<lparr>cells := [VInt 1]\<rparr>)"
    by code_simp
  from scope_exit_restores_stack_lengths [of example_host 5 new_env start,
         THEN conjunct1, rule_format, OF w] w
  show ?thesis by (intro conjI)
qed


text \<open>
  Claim C4: a break, continue or return raised inside a try block is not caught by the
  try statement: it leaves the statement as it left the block, so that a \<open>return\<close>
  inside a \<open>try\<close> returns from the enclosing function; any runtime error raised in the
  try block transfers control to the catch block instead. The first program below is
  \<open>for (let i = 0; lt(i, 1); i = add(i, 1)) { try { nofn(); } catch { print("caught"); } }\<close>
  as the parser lowers it, the second is its try statement alone. By the claim both
  print \<open>caught\<close> and finish. In the loop, \<open>_rewrite_continue_stmts\<close> has rebuilt the try
  statement with the catch block and the name of the error variable exchanged: the
  runtime error of \<open>nofn()\<close> does not run the catch block, and the program ends with
  Python's AttributeError and has printed nothing.
\<close>

theorem try_stmt_in_for_loop_skips_catch_block:
  "map_option (\<lambda>(r, env, s). (r, printed (heap s)))
     (evaluate example_host 40
        [Stmt (parse_for_loop_stmt
           (Some (VarDeclStmt ''i'' (SimpleLitExpr (IntLit 0))))
           (Some (CallExpr (AccessExpr ''lt'') [AccessExpr ''i'', SimpleLitExpr (IntLit 1)]))
           (Some (AssignmentExpr ''i''
              (CallExpr (AccessExpr ''add'') [AccessExpr ''i'', SimpleLitExpr (IntLit 1)])))
           [TryStmt (BlockStmt [ExprStmt (CallExpr (AccessExpr ''nofn'') [])])
              (BlockStmt [ExprStmt (CallExpr (AccessExpr ''print'')
                 [SimpleLitExpr (StrLit ''caught'')])])
              None])]
        example_built_ins start) =
   Some (Uncaught (PyException AttributeError), []) \<and>
   map_option (\<lambda>(r, env, s). (r, printed (heap s)))
     (evaluate example_host 40
        [Stmt (TryStmt (BlockStmt [ExprStmt (CallExpr (AccessExpr ''nofn'') [])])
              (BlockStmt [ExprStmt (CallExpr (AccessExpr ''print'')
                 [SimpleLitExpr (StrLit ''caught'')])])
              None)]
        example_built_ins start) =
   Some (Finished, [[VStr ''caught'']])"
  by code_simp

text \<open>
  Every try statement rebuilt by \<open>_rewrite_continue_stmts\<close> does this: when its try
  block raises, the statement raises AttributeError, whatever its catch block is.
\<close>

lemma try_stmt_swapped_raises_attribute_error:
  assumes "with_scope (visit_block_stmt H n try_block) env s = Some (Raise x, env1, s1)"
  shows "visit_stmt H (Suc n) (TryStmtSwapped try_block catch_block err_var_binding_name) env s =
     Some (Raise (PyException AttributeError), env1,
           s1\<lparr>cells := cells s1 @ [VExc x]\<rparr>)"
proof -
  have p: "push (scope_entry env1) (Node err_var_binding_name) (VExc x) s1 =
      ((scope_entry env1)\<lparr>stack := stack (scope_entry env1) @
          [(Node err_var_binding_name, length (cells s1))]\<rparr>,
       s1\<lparr>cells := cells s1 @ [VExc x]\<rparr>)"
    by (simp add: push_def)
  from frame_push [OF p] have "scope_exit (Raise (PyException AttributeError))
      ((scope_entry env1)\<lparr>stack := stack (scope_entry env1) @
          [(Node err_var_binding_name, length (cells s1))]\<rparr>) =
      (Raise (PyException AttributeError), env1)"
    by (rule scope_exit_frame)
  with assms p show ?thesis
    by (simp add: visit_stmt_TryStmtSwapped with_scope_def)
qed

text \<open>
  The try statement as \<open>_parse_try_stmt\<close> builds it, which is every try statement outside
  the body of a C-style for loop with a post expression. A break, continue or return of
  the try block leaves the statement as it left the block; a raised exception runs the
  catch block in a new scope. In the lemma, \<open>with_scope (visit_block_stmt H n try_block)
  env s\<close> is the run of the try block in its scope. Its third part is the function
  \<open>fn f() { try { return e; } catch ... }\<close> with any catch block: the call returns the
  value of \<open>e\<close>.
\<close>

lemma try_stmt_catches_errors_not_transfers:
  "(\<forall>out env1 s1.
      with_scope (visit_block_stmt H n try_block) env s = Some (out, env1, s1) \<and>
      (out = Break \<or> out = Continue \<or> (\<exists>v. out = Return v)) \<longrightarrow>
      visit_stmt H (Suc n) (TryStmt try_block catch_block err_var_binding_name) env s =
        Some (out, env1, s1)) \<and>
   (\<forall>x env1 s1.
      with_scope (visit_block_stmt H n try_block) env s = Some (Raise x, env1, s1) \<longrightarrow>
      visit_stmt H (Suc n) (TryStmt try_block catch_block err_var_binding_name) env s =
        with_scope
          (\<lambda>env s.
             case (case err_var_binding_name of
                     Some name \<Rightarrow> if name \<noteq> [] then push env (Str name) (VExc x) s else (env, s)
                   | None \<Rightarrow> (env, s)) of
               (env', s') \<Rightarrow> visit_block_stmt H n catch_block env' s')
          env1 s1) \<and>
   (\<forall>e v s1 fname captured_env.
      evaluate_expr H n e (scope_entry (scope_entry (copy captured_env))) s = Some (Inr v, s1) \<longrightarrow>
      compiled H (n + 7) fname []
        (BlockStmt [TryStmt (BlockStmt [ReturnStmt (Some e)]) catch_block err_var_binding_name])
        captured_env [] s = Some (Inr v, s1))"
proof (intro conjI allI impI)
  fix out env1 s1
  assume "with_scope (visit_block_stmt H n try_block) env s = Some (out, env1, s1) \<and>
      (out = Break \<or> out = Continue \<or> (\<exists>v. out = Return v))"
  then show "visit_stmt H (Suc n) (TryStmt try_block catch_block err_var_binding_name) env s =
        Some (out, env1, s1)"
    by (auto simp: visit_stmt_TryStmt)
next
  fix x env1 s1
  assume "with_scope (visit_block_stmt H n try_block) env s = Some (Raise x, env1, s1)"
  then show "visit_stmt H (Suc n) (TryStmt try_block catch_block err_var_binding_name) env s =
        with_scope
          (\<lambda>env s.
             case (case err_var_binding_name of
                     Some name \<Rightarrow> if name \<noteq> [] then push env (Str name) (VExc x) s else (env, s)
                   | None \<Rightarrow> (env, s)) of
               (env', s') \<Rightarrow> visit_block_stmt H n catch_block env' s')
          env1 s1"
    by (simp add: visit_stmt_TryStmt)
next
  fix e v s1 fname captured_env
  let ?env1 = "scope_entry (copy captured_env)"
  let ?env2 = "scope_entry ?env1"
  assume e: "evaluate_expr H n e ?env2 s = Some (Inr v, s1)"
  then have "visit_stmt H (Suc n) (ReturnStmt (Some e)) ?env2 s = Some (Return v, ?env2, s1)"
    by (simp add: visit_stmt_ReturnStmt)
  then have "visit_stmts H (Suc (Suc n)) [ReturnStmt (Some e)] ?env2 s = Some (Return v, ?env2, s1)"
    by (simp add: visit_stmts_Cons)
  then have "visit_block_stmt H (Suc (Suc (Suc n))) (BlockStmt [ReturnStmt (Some e)]) ?env2 s =
      Some (Return v, ?env2, s1)"
    by (simp add: visit_block_stmt_BlockStmt)
  then have "with_scope (visit_block_stmt H (Suc (Suc (Suc n))) (BlockStmt [ReturnStmt (Some e)])) ?env1 s =
      Some (Return v, ?env1, s1)"
    by (rule with_scope_same_env)
  then have "visit_stmt H (Suc (Suc (Suc (Suc n))))
      (TryStmt (BlockStmt [ReturnStmt (Some e)]) catch_block err_var_binding_name) ?env1 s =
      Some (Return v, ?env1, s1)"
    by (simp add: visit_stmt_TryStmt)
  then have "visit_stmts H (Suc (Suc (Suc (Suc (Suc n)))))
      [TryStmt (BlockStmt [ReturnStmt (Some e)]) catch_block err_var_binding_name] ?env1 s =
      Some (Return v, ?env1, s1)"
    by (simp add: visit_stmts_Cons)
  then have "visit_block_stmt H (Suc (Suc (Suc (Suc (Suc (Suc n))))))
      (BlockStmt [TryStmt (BlockStmt [ReturnStmt (Some e)]) catch_block err_var_binding_name]) ?env1 s =
      Some (Return v, ?env1, s1)"
    by (simp add: visit_block_stmt_BlockStmt)
  then have "with_scope (visit_block_stmt H (Suc (Suc (Suc (Suc (Suc (Suc n))))))
      (BlockStmt [TryStmt (BlockStmt [ReturnStmt (Some e)]) catch_block err_var_binding_name]))
      (copy captured_env) s = Some (Return v, copy captured_env, s1)"
    by (rule with_scope_same_env)
  then have "compiled H (Suc (Suc (Suc (Suc (Suc (Suc (Suc n))))))) fname []
        (BlockStmt [TryStmt (BlockStmt [ReturnStmt (Some e)]) catch_block err_var_binding_name])
        captured_env [] s = Some (Inr v, s1)"
    by (simp add: compiled_no_params)
  moreover have "n + 7 = Suc (Suc (Suc (Suc (Suc (Suc (Suc n))))))" by simp
  ultimately show "compiled H (n + 7) fname []
        (BlockStmt [TryStmt (BlockStmt [ReturnStmt (Some e)]) catch_block err_var_binding_name])
        captured_env [] s = Some (Inr v, s1)"
    by (simp only:)
qed

text \<open>
  The function of the specification's scenario, \<open>fn f() { try { return 42; } catch (e) {
  return 0; } }\<close>, called with an empty captured environment.
\<close>

lemma try_stmt_witness:
  "evaluate_expr example_host 1 (SimpleLitExpr (IntLit 42))
     (scope_entry (scope_entry (copy new_env))) start = Some (Inr (VInt 42), start) \<and>
   compiled example_host (1 + 7) ''f'' []
     (BlockStmt [TryStmt (BlockStmt [ReturnStmt (Some (SimpleLitExpr (IntLit 42)))])
                   (BlockStmt [ReturnStmt (Some (SimpleLitExpr (IntLit 0)))]) (Some ''e'')])
     new_env [] start = Some (Inr (VInt 42), start)"
proof -
  have e: "evaluate_expr example_host 1 (SimpleLitExpr (IntLit 42))
     (scope_entry (scope_entry (copy new_env))) start = Some (Inr (VInt 42), start)"
    by code_simp
  note t = try_stmt_catches_errors_not_transfers
    [of example_host 1 _ _ start "BlockStmt [ReturnStmt (Some (SimpleLitExpr (IntLit 0)))]"
        "Some ''e''"]
  from t [THEN conjunct2, THEN conjunct2, rule_format, OF e] e show ?thesis
    by (intro conjI)
qed


section \<open>More steps never change a result\<close>

text \<open>\<open>stays a b\<close>: the result \<open>a\<close>, if there is one, is also the result \<open>b\<close>.\<close>

definition stays :: "'a option \<Rightarrow> 'a option \<Rightarrow> bool" where
  "stays a b = (a = None \<or> a = b)"

lemma stays_refl [simp]: "stays a a"
  by (simp add: stays_def)

lemma stays_None [simp]: "stays None b"
  by (simp add: stays_def)

lemma stays_Some: "stays a b \<Longrightarrow> a = Some r \<Longrightarrow> b = Some r"
  by (auto simp: stays_def)

lemma stays_trans: "stays a b \<Longrightarrow> stays b c \<Longrightarrow> stays a c"
  by (auto simp: stays_def)

lemma stays_case:
  assumes "stays a b" and "\<And>y. stays (f y) (g y)"
  shows "stays (case a of None \<Rightarrow> None | Some y \<Rightarrow> f y) (case b of None \<Rightarrow> None | Some y \<Rightarrow> g y)"
proof (cases a)
  case None
  then show ?thesis by simp
next
  case (Some y)
  with assms(1) have "b = Some y" by (simp add: stays_def)
  with Some assms(2) [of y] show ?thesis by simp
qed

lemma stays_with_scope:
  assumes "stays (body (scope_entry env) s) (body' (scope_entry env) s)"
  shows "stays (with_scope body env s) (with_scope body' env s)"
  unfolding with_scope_def by (rule stays_case [OF assms]) simp

definition more_steps :: "'h host \<Rightarrow> nat \<Rightarrow> bool" where
  "more_steps H n =
     ((\<forall>e env s. stays (evaluate_expr H n e env s) (evaluate_expr H (Suc n) e env s)) \<and>
      (\<forall>es env s. stays (evaluate_exprs H n es env s) (evaluate_exprs H (Suc n) es env s)) \<and>
      (\<forall>d es env s. stays (evaluate_entries H n d es env s)
         (evaluate_entries H (Suc n) d es env s)) \<and>
      (\<forall>f ps b ce args s. stays (compiled H n f ps b ce args s)
         (compiled H (Suc n) f ps b ce args s)) \<and>
      (\<forall>st env s. stays (visit_stmt H n st env s) (visit_stmt H (Suc n) st env s)) \<and>
      (\<forall>b env s. stays (visit_block_stmt H n b env s) (visit_block_stmt H (Suc n) b env s)) \<and>
      (\<forall>sts env s. stays (visit_stmts H n sts env s) (visit_stmts H (Suc n) sts env s)) \<and>
      (\<forall>c b env s. stays (while_loop H n c b env s) (while_loop H (Suc n) c b env s)) \<and>
      (\<forall>name it b env s. stays (for_loop H n name it b env s)
         (for_loop H (Suc n) name it b env s)))"

lemma more_steps_expr:
  "more_steps H n \<Longrightarrow> stays (evaluate_expr H n e env s) (evaluate_expr H (Suc n) e env s)"
  by (simp add: more_steps_def)

lemma more_steps_exprs:
  "more_steps H n \<Longrightarrow> stays (evaluate_exprs H n es env s) (evaluate_exprs H (Suc n) es env s)"
  by (simp add: more_steps_def)

lemma more_steps_entries:
  "more_steps H n \<Longrightarrow>
   stays (evaluate_entries H n d es env s) (evaluate_entries H (Suc n) d es env s)"
  by (simp add: more_steps_def)

lemma more_steps_compiled:
  "more_steps H n \<Longrightarrow>
   stays (compiled H n f ps b ce args s) (compiled H (Suc n) f ps b ce args s)"
  by (simp add: more_steps_def)

lemma more_steps_stmt:
  "more_steps H n \<Longrightarrow> stays (visit_stmt H n st env s) (visit_stmt H (Suc n) st env s)"
  by (simp add: more_steps_def)

lemma more_steps_block:
  "more_steps H n \<Longrightarrow> stays (visit_block_stmt H n b env s) (visit_block_stmt H (Suc n) b env s)"
  by (simp add: more_steps_def)

lemma more_steps_stmts:
  "more_steps H n \<Longrightarrow> stays (visit_stmts H n sts env s) (visit_stmts H (Suc n) sts env s)"
  by (simp add: more_steps_def)

lemma more_steps_while:
  "more_steps H n \<Longrightarrow> stays (while_loop H n c b env s) (while_loop H (Suc n) c b env s)"
  by (simp add: more_steps_def)

lemma more_steps_for:
  "more_steps H n \<Longrightarrow> stays (for_loop H n name it b env s) (for_loop H (Suc n) name it b env s)"
  by (simp add: more_steps_def)

lemmas more_steps_rules =
  more_steps_expr more_steps_exprs more_steps_entries more_steps_compiled more_steps_stmt
  more_steps_block more_steps_stmts more_steps_while more_steps_for

lemma step_expr:
  assumes k: "more_steps H n"
  shows "stays (evaluate_expr H (Suc n) e env s) (evaluate_expr H (Suc (Suc n)) e env s)"
  apply (subst evaluate_expr.simps(2) [of H "Suc n" e env s])
  apply (subst evaluate_expr.simps(2) [of H n e env s])
  apply (cases e)
  apply (auto intro!: stays_case more_steps_rules [OF k]
           split: prod.split sum.split val.split host_exc.split)
  done

lemma step_exprs:
  assumes k: "more_steps H n"
  shows "stays (evaluate_exprs H (Suc n) es env s) (evaluate_exprs H (Suc (Suc n)) es env s)"
  apply (subst evaluate_exprs.simps(2) [of H "Suc n" es env s])
  apply (subst evaluate_exprs.simps(2) [of H n es env s])
  apply (cases es)
  apply (auto intro!: stays_case more_steps_rules [OF k]
           split: prod.split sum.split)
  done

lemma step_entries:
  assumes k: "more_steps H n"
  shows "stays (evaluate_entries H (Suc n) d es env s) (evaluate_entries H (Suc (Suc n)) d es env s)"
  apply (subst evaluate_entries.simps(2) [of H "Suc n" d es env s])
  apply (subst evaluate_entries.simps(2) [of H n d es env s])
  apply (cases es)
  apply (auto intro!: stays_case more_steps_rules [OF k]
           split: prod.split sum.split)
  done

lemma step_compiled:
  assumes k: "more_steps H n"
  shows "stays (compiled H (Suc n) f ps b ce args s) (compiled H (Suc (Suc n)) f ps b ce args s)"
  apply (subst compiled.simps(2) [of H "Suc n" f ps b ce args s])
  apply (subst compiled.simps(2) [of H n f ps b ce args s])
  apply (auto simp: Let_def intro!: stays_case stays_with_scope more_steps_rules [OF k]
           split: prod.split sum.split outcome.split)
  done

lemma step_stmt:
  assumes k: "more_steps H n"
  shows "stays (visit_stmt H (Suc n) st env s) (visit_stmt H (Suc (Suc n)) st env s)"
  apply (subst visit_stmt.simps(2) [of H "Suc n" st env s])
  apply (subst visit_stmt.simps(2) [of H n st env s])
  apply (cases st)
  subgoal by (auto intro!: stays_case stays_with_scope more_steps_rules [OF k]
           split: prod.split sum.split outcome.split host_exc.split)
  subgoal by (auto intro!: stays_case stays_with_scope more_steps_rules [OF k]
           split: prod.split sum.split outcome.split host_exc.split)
  subgoal for c t e by (cases e) (auto intro!: stays_case stays_with_scope more_steps_rules [OF k]
           split: prod.split sum.split outcome.split host_exc.split)
  subgoal for rv by (cases rv) (auto intro!: stays_case stays_with_scope more_steps_rules [OF k]
           split: prod.split sum.split outcome.split host_exc.split)
  subgoal by (auto intro!: stays_case stays_with_scope more_steps_rules [OF k]
           split: prod.split sum.split outcome.split host_exc.split)
  subgoal by (auto intro!: stays_case stays_with_scope more_steps_rules [OF k]
           split: prod.split sum.split outcome.split host_exc.split)
  subgoal by (auto intro!: stays_case stays_with_scope more_steps_rules [OF k]
           split: prod.split sum.split outcome.split host_exc.split)
  subgoal by (auto intro!: stays_case stays_with_scope more_steps_rules [OF k]
           split: prod.split sum.split outcome.split host_exc.split)
  subgoal by (auto intro!: stays_case stays_with_scope more_steps_rules [OF k]
           split: prod.split sum.split outcome.split host_exc.split)
  subgoal by (auto intro!: stays_case stays_with_scope more_steps_rules [OF k]
           split: prod.split sum.split outcome.split host_exc.split)
  subgoal by (auto intro!: stays_case stays_with_scope more_steps_rules [OF k]
           split: prod.split sum.split outcome.split host_exc.split)
  done

lemma step_block:
  assumes k: "more_steps H n"
  shows "stays (visit_block_stmt H (Suc n) b env s) (visit_block_stmt H (Suc (Suc n)) b env s)"
  apply (subst visit_block_stmt.simps(2) [of H "Suc n" b env s])
  apply (subst visit_block_stmt.simps(2) [of H n b env s])
  apply (cases b)
  apply (auto intro!: more_steps_rules [OF k])
  done

lemma step_stmts:
  assumes k: "more_steps H n"
  shows "stays (visit_stmts H (Suc n) sts env s) (visit_stmts H (Suc (Suc n)) sts env s)"
  apply (subst visit_stmts.simps(2) [of H "Suc n" sts env s])
  apply (subst visit_stmts.simps(2) [of H n sts env s])
  apply (cases sts)
  apply (auto intro!: stays_case more_steps_rules [OF k]
           split: prod.split outcome.split)
  done

lemma step_while:
  assumes k: "more_steps H n"
  shows "stays (while_loop H (Suc n) c b env s) (while_loop H (Suc (Suc n)) c b env s)"
  apply (subst while_loop.simps(2) [of H "Suc n" c b env s])
  apply (subst while_loop.simps(2) [of H n c b env s])
  apply (auto intro!: stays_case stays_with_scope more_steps_rules [OF k]
           split: prod.split sum.split outcome.split)
  done

lemma step_for:
  assumes k: "more_steps H n"
  shows "stays (for_loop H (Suc n) name it b env s) (for_loop H (Suc (Suc n)) name it b env s)"
  apply (subst for_loop.simps(2) [of H "Suc n" name it b env s])
  apply (subst for_loop.simps(2) [of H n name it b env s])
  apply (auto intro!: stays_case stays_with_scope more_steps_rules [OF k]
           split: prod.split sum.split outcome.split host_exc.split)
  done

lemma more_steps: "more_steps H n"
proof (induction n)
  case 0
  show ?case
    by (simp add: more_steps_def evaluate_expr.simps(1) evaluate_exprs.simps(1)
        evaluate_entries.simps(1) compiled.simps(1) visit_stmt.simps(1)
        visit_block_stmt.simps(1) visit_stmts.simps(1) while_loop.simps(1) for_loop.simps(1))
next
  case (Suc n)
  show ?case
    unfolding more_steps_def [of H "Suc n"]
    by (intro conjI allI step_expr step_exprs step_entries step_compiled step_stmt step_block
        step_stmts step_while step_for Suc)
qed

lemma stays_le:
  assumes "\<And>n. stays (f n) (f (Suc n))" and "f n = Some r" and "n \<le> m"
  shows "f m = Some r"
  using assms(3)
proof (induction m)
  case 0
  with assms(2) show ?case by simp
next
  case (Suc m)
  show ?case
  proof (cases "n = Suc m")
    case True
    with assms(2) show ?thesis by simp
  next
    case False
    with Suc have "f m = Some r" by simp
    with assms(1) [of m] show ?thesis by (simp add: stays_def)
  qed
qed

lemma evaluate_expr_more:
  "evaluate_expr H n e env s = Some r \<Longrightarrow> n \<le> m \<Longrightarrow> evaluate_expr H m e env s = Some r"
  by (rule stays_le [where f = "\<lambda>n. evaluate_expr H n e env s"])
     (simp_all add: more_steps_expr [OF more_steps])

lemma visit_stmt_more:
  "visit_stmt H n st env s = Some r \<Longrightarrow> n \<le> m \<Longrightarrow> visit_stmt H m st env s = Some r"
  by (rule stays_le [where f = "\<lambda>n. visit_stmt H n st env s"])
     (simp_all add: more_steps_stmt [OF more_steps])

lemma visit_block_stmt_more:
  "visit_block_stmt H n b env s = Some r \<Longrightarrow> n \<le> m \<Longrightarrow>
   visit_block_stmt H m b env s = Some r"
  by (rule stays_le [where f = "\<lambda>n. visit_block_stmt H n b env s"])
     (simp_all add: more_steps_block [OF more_steps])

lemma visit_stmts_more:
  "visit_stmts H n sts env s = Some r \<Longrightarrow> n \<le> m \<Longrightarrow> visit_stmts H m sts env s = Some r"
  by (rule stays_le [where f = "\<lambda>n. visit_stmts H n sts env s"])
     (simp_all add: more_steps_stmts [OF more_steps])

lemma while_loop_more:
  "while_loop H n c b env s = Some r \<Longrightarrow> n \<le> m \<Longrightarrow> while_loop H m c b env s = Some r"
  by (rule stays_le [where f = "\<lambda>n. while_loop H n c b env s"])
     (simp_all add: more_steps_while [OF more_steps])

end
